theory Spec2Isabelle
  imports Main
begin

section \<open>Python values shared by both command-line tools\<close>

text \<open>
  Exceptions are values. \<open>LookupError\<close> is the class declared at the top of
  \<^verbatim>\<open>lookup.py\<close>; the remaining constructors are the built-in exceptions that
  the two modules can raise. \<open>SystemExit\<close> carries the exit status of
  \<^verbatim>\<open>sys.exit\<close>.
\<close>

datatype error =
    LookupError string
  | UnboundLocalError string
  | ValueError string
  | SystemExit nat

subsection \<open>Strings\<close>

definition startswith :: "string \<Rightarrow> string \<Rightarrow> bool" where
  "startswith s p = (take (length p) s = p)"

text \<open>\<^verbatim>\<open>s.split('/')[-1]\<close>: the part of \<open>s\<close> after its last slash.\<close>

definition last_segment :: "string \<Rightarrow> string" where
  "last_segment s = rev (takeWhile (\<lambda>c. c \<noteq> CHR ''/'') (rev s))"

definition digit_char :: "nat \<Rightarrow> char" where
  "digit_char d = char_of (48 + d)"

text \<open>\<^verbatim>\<open>'{}'.format(n)\<close> for a non-negative integer: its decimal numeral.\<close>

fun decimal :: "nat \<Rightarrow> string" where
  "decimal n = (if n < 10 then [digit_char n] else decimal (n div 10) @ [digit_char (n mod 10)])"

declare decimal.simps [simp del]

text \<open>\<^verbatim>\<open>'{:03d}'.format(n)\<close>: the numeral, filled with zeros on the left up to width 3.\<close>

definition format_03d :: "nat \<Rightarrow> string" where
  "format_03d n = replicate (3 - length (decimal n)) CHR ''0'' @ decimal n"

text \<open>\<^verbatim>\<open>s.ljust(width)\<close>: filled with spaces on the right up to the width.\<close>

definition ljust :: "string \<Rightarrow> nat \<Rightarrow> string" where
  "ljust s width = s @ replicate (width - length s) CHR '' ''"

section \<open>template.py\<close>

definition PRINCIPAL_TYPE_GROUP :: string where "PRINCIPAL_TYPE_GROUP = ''GROUP''"
definition PRINCIPAL_TYPE_USER :: string where "PRINCIPAL_TYPE_USER = ''USER''"
definition TARGET_TYPE_ACCOUNT :: string where "TARGET_TYPE_ACCOUNT = ''AWS_ACCOUNT''"
definition MAX_RESOURCES_PER_TEMPLATE :: int where "MAX_RESOURCES_PER_TEMPLATE = 200"
definition REF_PREFIX :: string where "REF_PREFIX = ''!Ref=''"

record Input =
  groups :: "string list"
  users :: "string list"
  permission_sets :: "string list"
  ous :: "string list"
  accounts :: "string list"

text \<open>
  A property value of a resource is a string or the dictionary \<^verbatim>\<open>{"Ref": name}\<close>.
\<close>

datatype cfn_value = Str string | Ref string

record properties =
  InstanceArn :: string
  PrincipalType :: string
  PrincipalId :: cfn_value
  PermissionSetArn :: cfn_value
  TargetType :: string
  TargetId :: cfn_value

record resource =
  Type :: string
  Properties :: properties

definition get_resource ::
  "string \<Rightarrow> string \<times> cfn_value \<Rightarrow> cfn_value \<Rightarrow> string \<times> cfn_value \<Rightarrow> resource" where
  "get_resource instance_arn princ permission_set_arn target =
     \<lparr> Type = ''AWS::SSO::Assignment'',
       Properties = \<lparr> InstanceArn = instance_arn,
                      PrincipalType = fst princ,
                      PrincipalId = snd princ,
                      PermissionSetArn = permission_set_arn,
                      TargetType = fst target,
                      TargetId = snd target \<rparr> \<rparr>"

text \<open>
  \<^verbatim>\<open>range(0, stop, step)\<close> for a positive step: \<open>0, step, 2 * step, ...\<close> below
  \<open>stop\<close>.
\<close>

definition range_step :: "nat \<Rightarrow> nat \<Rightarrow> nat list" where
  "range_step stop step = map (\<lambda>k. k * step) [0..<(stop + step - 1) div step]"

text \<open>The slice \<^verbatim>\<open>lst[i:j]\<close> for \<open>0 \<le> i \<le> j\<close>.\<close>

definition slice :: "'a list \<Rightarrow> nat \<Rightarrow> nat \<Rightarrow> 'a list" where
  "slice lst i j = take (j - i) (drop i lst)"

text \<open>
  The generator is consumed completely by its only caller, so it is modelled by the list
  of the chunks it yields. \<^verbatim>\<open>range\<close> raises ValueError for a zero step and is empty
  for a negative one.
\<close>

definition chunk_list_generator :: "'a list \<Rightarrow> int \<Rightarrow> error + 'a list list" where
  "chunk_list_generator lst chunk_length =
     (if chunk_length = 0 then Inl (ValueError ''range() arg 3 must not be zero'')
      else if chunk_length < 0 then Inr []
      else Inr (map (\<lambda>i. slice lst i (i + nat chunk_length))
                    (range_step (length lst) (nat chunk_length))))"

text \<open>
  \<^verbatim>\<open>collections.OrderedDict(pairs)\<close>: a key that is already present keeps its place
  and takes the new value, a new key goes to the end.
\<close>

fun od_setitem :: "'k \<Rightarrow> 'v \<Rightarrow> ('k \<times> 'v) list \<Rightarrow> ('k \<times> 'v) list" where
  "od_setitem k v [] = [(k, v)]"
| "od_setitem k v (p # ps) = (if fst p = k then (k, v) # ps else p # od_setitem k v ps)"

definition OrderedDict :: "('k \<times> 'v) list \<Rightarrow> ('k \<times> 'v) list" where
  "OrderedDict pairs = fold (\<lambda>(k, v) d. od_setitem k v d) pairs []"

record template =
  AWSTemplateFormatVersion :: string
  Resources :: "(string \<times> resource) list"

text \<open>The body of the innermost loop of \<^verbatim>\<open>get_templates\<close>, over the targets.\<close>

fun targets_loop ::
  "string \<Rightarrow> string \<times> cfn_value \<Rightarrow> cfn_value \<Rightarrow> (string \<times> string) list \<Rightarrow>
   nat \<times> (string \<times> resource) list \<Rightarrow> nat \<times> (string \<times> resource) list" where
  "targets_loop instance_arn princ permission_set_arn [] st = st"
| "targets_loop instance_arn princ permission_set_arn (t # ts) (index, resources) =
     (let target = (if startswith (snd t) REF_PREFIX
                    then (fst t, Ref (drop (length REF_PREFIX) (snd t)))
                    else (fst t, Str (snd t)));
          resource_name = ''Assignment'' @ format_03d index;
          resources' = resources @
            [(resource_name, get_resource instance_arn princ permission_set_arn target)]
      in targets_loop instance_arn princ permission_set_arn ts (index + 1, resources'))"

definition permission_set_arn_of :: "string \<Rightarrow> string \<Rightarrow> cfn_value" where
  "permission_set_arn_of instance_id permission_set =
     (if startswith permission_set ''arn'' then Str permission_set
      else if startswith permission_set REF_PREFIX
        then Ref (drop (length REF_PREFIX) permission_set)
      else if startswith permission_set ''ssoins'' \<or> startswith permission_set ''ins''
        then Str (''arn:aws:sso:::permissionSet/'' @ permission_set)
      else Str (''arn:aws:sso:::permissionSet/'' @ instance_id @ ''/'' @ permission_set))"

fun permission_sets_loop ::
  "string \<Rightarrow> string \<Rightarrow> string \<times> cfn_value \<Rightarrow> string list \<Rightarrow> (string \<times> string) list \<Rightarrow>
   nat \<times> (string \<times> resource) list \<Rightarrow> nat \<times> (string \<times> resource) list" where
  "permission_sets_loop instance_arn instance_id princ [] targets st = st"
| "permission_sets_loop instance_arn instance_id princ (permission_set # rest) targets st =
     permission_sets_loop instance_arn instance_id princ rest targets
       (targets_loop instance_arn princ
          (permission_set_arn_of instance_id permission_set) targets st)"

fun principals_loop ::
  "string \<Rightarrow> string \<Rightarrow> (string \<times> string) list \<Rightarrow> string list \<Rightarrow> (string \<times> string) list \<Rightarrow>
   nat \<times> (string \<times> resource) list \<Rightarrow> nat \<times> (string \<times> resource) list" where
  "principals_loop instance_arn instance_id [] psets targets st = st"
| "principals_loop instance_arn instance_id (p # ps) psets targets st =
     (let princ = (if startswith (snd p) REF_PREFIX
                       then (fst p, Ref (drop (length REF_PREFIX) (snd p)))
                       else (fst p, Str (snd p)))
      in principals_loop instance_arn instance_id ps psets targets
           (permission_sets_loop instance_arn instance_id princ psets targets st))"

text \<open>
  The loop over \<^verbatim>\<open>input.ous\<close> that extends \<open>targets\<close>; \<open>ou_fetcher\<close> is a
  callable of the caller and may raise.
\<close>

fun ous_loop ::
  "(string \<Rightarrow> error + string list) \<Rightarrow> string list \<Rightarrow> (string \<times> string) list \<Rightarrow>
   error + (string \<times> string) list" where
  "ous_loop ou_fetcher [] targets = Inr targets"
| "ous_loop ou_fetcher (ou # rest) targets =
     (case ou_fetcher ou of
        Inl e \<Rightarrow> Inl e
      | Inr accts \<Rightarrow>
          ous_loop ou_fetcher rest (targets @ map (\<lambda>account. (TARGET_TYPE_ACCOUNT, account)) accts))"

definition instance_arn_of :: "string \<Rightarrow> string" where
  "instance_arn_of instance =
     (if startswith instance ''arn'' then instance else ''arn:aws:sso:::instance/'' @ instance)"

text \<open>
  Lines 181 to 216 of \<^verbatim>\<open>get_templates\<close>: the list \<^verbatim>\<open>resources\<close> as the loops
  leave it.
\<close>

definition generate_resources ::
  "string \<Rightarrow> Input \<Rightarrow> (string \<Rightarrow> error + string list) \<Rightarrow> error + (string \<times> resource) list" where
  "generate_resources instance input ou_fetcher =
     (let instance_arn = instance_arn_of instance;
          instance_id = last_segment instance_arn;
          principals = map (\<lambda>g. (PRINCIPAL_TYPE_GROUP, g)) (groups input) @
                       map (\<lambda>u. (PRINCIPAL_TYPE_USER, u)) (users input)
      in case ous_loop ou_fetcher (ous input) [] of
           Inl e \<Rightarrow> Inl e
         | Inr targets0 \<Rightarrow>
             (let targets = targets0 @
                    map (\<lambda>account. (TARGET_TYPE_ACCOUNT, account)) (accounts input)
              in Inr (snd (principals_loop instance_arn instance_id principals
                             (permission_sets input) targets (1, [])))))"

text \<open>
  \<^verbatim>\<open>get_templates\<close>: the generated resources, then lines 218 to 223, which cut them
  into templates.
\<close>

definition get_templates ::
  "string \<Rightarrow> Input \<Rightarrow> (string \<Rightarrow> error + string list) \<Rightarrow> int \<Rightarrow> error + template list" where
  "get_templates instance input ou_fetcher max_resources_per_template =
     (case generate_resources instance input ou_fetcher of
        Inl e \<Rightarrow> Inl e
      | Inr resources \<Rightarrow>
          (case chunk_list_generator resources max_resources_per_template of
             Inl e \<Rightarrow> Inl e
           | Inr chunks \<Rightarrow>
               Inr (map (\<lambda>rsc. \<lparr> AWSTemplateFormatVersion = ''2010-09-09'',
                                 Resources = OrderedDict rsc \<rparr>) chunks)))"

text \<open>
  \<^verbatim>\<open>get_accounts_for_ou\<close> asks the Organizations service, page by page, for the
  child units and the accounts of a parent. The client is given by the pages of identifiers
  it answers with.
\<close>

record organizations_client =
  list_organizational_units_for_parent :: "string \<Rightarrow> string list list"
  list_accounts_for_parent :: "string \<Rightarrow> string list list"

text \<open>
  The recursion follows the answers of the service, so it is bounded by fuel: \<open>None\<close> is
  a walk that did not finish within the fuel. The two loops over the pages of child units
  take the recursive call as the parameter \<open>walk\<close>.
\<close>

fun sub_ous_loop ::
  "(string \<Rightarrow> string list option) \<Rightarrow> string list \<Rightarrow> string list \<Rightarrow> string list option" where
  "sub_ous_loop walk [] accts = Some accts"
| "sub_ous_loop walk (sub_ou_id # rest) accts =
     (case walk sub_ou_id of
        None \<Rightarrow> None
      | Some found \<Rightarrow> sub_ous_loop walk rest (accts @ found))"

fun ou_pages_loop ::
  "(string \<Rightarrow> string list option) \<Rightarrow> string list list \<Rightarrow> string list \<Rightarrow> string list option" where
  "ou_pages_loop walk [] accts = Some accts"
| "ou_pages_loop walk (sub_ous # pages) accts =
     (case sub_ous_loop walk sub_ous accts of
        None \<Rightarrow> None
      | Some accts' \<Rightarrow> ou_pages_loop walk pages accts')"

fun account_pages_loop :: "string list list \<Rightarrow> string list \<Rightarrow> string list" where
  "account_pages_loop [] accts = accts"
| "account_pages_loop (page # pages) accts = account_pages_loop pages (accts @ page)"

fun get_accounts_for_ou :: "nat \<Rightarrow> organizations_client \<Rightarrow> string \<Rightarrow> string list option" where
  "get_accounts_for_ou 0 organizations_client ou = None"
| "get_accounts_for_ou (Suc fuel) organizations_client ou =
     (case ou_pages_loop (get_accounts_for_ou fuel organizations_client)
             (list_organizational_units_for_parent organizations_client ou) [] of
        None \<Rightarrow> None
      | Some accts \<Rightarrow>
          Some (account_pages_loop (list_accounts_for_parent organizations_client ou) accts))"

text \<open>
  A finite tree of organizational units: the identifier of the unit, the pages of its child
  units and the pages of its accounts. \<open>describes\<close> says that the service answers for
  every unit of the tree with the children and accounts the tree has there, and
  \<open>subtree_accounts\<close> is the flattening the walk is compared with.
\<close>

datatype ou_tree = OU string "ou_tree list list" "string list list"

fun ou_id :: "ou_tree \<Rightarrow> string" where
  "ou_id (OU i subs accts) = i"

fun describes :: "organizations_client \<Rightarrow> ou_tree \<Rightarrow> bool" where
  "describes c (OU i subs accts) =
     (list_organizational_units_for_parent c i = map (map ou_id) subs \<and>
      list_accounts_for_parent c i = accts \<and>
      (\<forall>page\<in>set subs. \<forall>t\<in>set page. describes c t))"

fun subtree_accounts :: "ou_tree \<Rightarrow> string list" where
  "subtree_accounts (OU i subs accts) =
     concat (map (\<lambda>page. concat (map subtree_accounts page)) subs) @ concat accts"

fun height :: "ou_tree \<Rightarrow> nat" where
  "height (OU i subs accts) = Suc (foldr max (map height (concat subs)) 0)"

section \<open>lookup.py\<close>

text \<open>
  The two service clients are external: they are given by what they answer.
  \<open>list_instances\<close> is \<^verbatim>\<open>response['Instances']\<close>, \<open>list_permission_sets\<close> the
  pages of permission-set ARNs of an instance, \<open>describe_permission_set\<close> the name of a
  permission set; \<open>list_groups\<close> and \<open>list_users\<close> are the identifiers of the groups
  and users that the identity store reports for a name filter.
\<close>

record sso_instance =
  inst_InstanceArn :: string
  inst_IdentityStoreId :: string

record sso_admin_client =
  list_instances :: "sso_instance list"
  list_permission_sets :: "string \<Rightarrow> string list list"
  describe_permission_set :: "string \<Rightarrow> string \<Rightarrow> string"

record identity_store_client =
  list_groups :: "string \<Rightarrow> string \<Rightarrow> string list"
  list_users :: "string \<Rightarrow> string \<Rightarrow> string list"

text \<open>
  Every call of a client is recorded, so that "without calling the service" can be
  stated. Printing appends to the standard output or to the standard error.
\<close>

datatype remote_call =
    ListInstances
  | ListGroups string string
  | ListUsers string string
  | ListPermissionSets string
  | DescribePermissionSet string string

record world =
  remote_calls :: "remote_call list"
  stdout :: "string list"
  stderr :: "string list"

definition call :: "remote_call \<Rightarrow> world \<Rightarrow> world" where
  "call c w = w\<lparr>remote_calls := remote_calls w @ [c]\<rparr>"

definition print_stdout :: "string \<Rightarrow> world \<Rightarrow> world" where
  "print_stdout line w = w\<lparr>stdout := stdout w @ [line]\<rparr>"

definition print_stderr :: "string \<Rightarrow> world \<Rightarrow> world" where
  "print_stderr line w = w\<lparr>stderr := stderr w @ [line]\<rparr>"

datatype command_type = Instance | IdentityStore | Groups | Users | PermissionSets

record args =
  arg_type :: command_type
  arg_value :: "string list"
  arg_instance_arn :: "string option"
  arg_identity_store_id :: "string option"
  error_if_not_found :: bool
  show_id :: bool

text \<open>
  The class \<^verbatim>\<open>Ids\<close>; the prefix \<open>priv_\<close> stands for the leading underscore of the
  attribute names.
\<close>

record Ids =
  priv_client :: sso_admin_client
  priv_instance_arn :: "string option"
  priv_instance_arn_printed :: bool
  priv_identity_store_id :: "string option"
  priv_identity_store_id_printed :: bool
  suppress_print :: bool

definition Ids_init :: "sso_admin_client \<Rightarrow> args \<Rightarrow> Ids" where
  "Ids_init sso_admin_client a =
     \<lparr> priv_client = sso_admin_client,
       priv_instance_arn = arg_instance_arn a,
       priv_instance_arn_printed = False,
       priv_identity_store_id = arg_identity_store_id a,
       priv_identity_store_id_printed = False,
       suppress_print = False \<rparr>"

text \<open>The truth value of an optional string: \<^verbatim>\<open>None\<close> and the empty string are false.\<close>

fun truthy :: "string option \<Rightarrow> bool" where
  "truthy None = False"
| "truthy (Some s) = (s \<noteq> [])"

definition ids_print :: "Ids \<Rightarrow> string \<Rightarrow> world \<Rightarrow> world" where
  "ids_print self line w = (if \<not> suppress_print self then print_stdout line w else w)"

text \<open>
  The property \<^verbatim>\<open>Ids.instance_arn\<close>. The result carries the object and the world as
  they are when the property returns or raises.
\<close>

definition instance_arn :: "Ids \<Rightarrow> world \<Rightarrow> (error + string) \<times> Ids \<times> world" where
  "instance_arn self w =
     (if truthy (priv_instance_arn self) then
        (if \<not> priv_instance_arn_printed self then
           (Inr (the (priv_instance_arn self)),
            self\<lparr>priv_instance_arn_printed := True\<rparr>,
            ids_print self (''Using SSO instance '' @ last_segment (the (priv_instance_arn self))) w)
         else (Inr (the (priv_instance_arn self)), self, w))
      else
        (let w1 = call ListInstances w;
             instances = list_instances (priv_client self)
         in if length instances = 0 then
              (Inl (LookupError ''No SSO instance found, please specify with --instance-arn''),
               self, w1)
            else if length instances > 1 then
              (Inl (LookupError (decimal (length instances) @
                      '' SSO instances found, please specify with --instance-arn'')),
               self, w1)
            else
              (let found_arn = inst_InstanceArn (instances ! 0);
                   self1 = self\<lparr>priv_instance_arn := Some found_arn\<rparr>;
                   w2 = ids_print self1 (''Using SSO instance '' @ last_segment found_arn) w1;
                   self2 = self1\<lparr>priv_instance_arn_printed := True\<rparr>;
                   identity_store_id = inst_IdentityStoreId (instances ! 0)
               in if truthy (priv_identity_store_id self2) \<and>
                     priv_identity_store_id self2 \<noteq> Some identity_store_id then
                    (Inl (LookupError (''SSO instance identity store '' @ identity_store_id @
                            '' does not match given identity store '' @
                            the (priv_identity_store_id self2))),
                     self2, w2)
                  else
                    (Inr found_arn, self2\<lparr>priv_identity_store_id := Some identity_store_id\<rparr>, w2))))"

text \<open>
  The property \<^verbatim>\<open>Ids.identity_store_id\<close>. In its first branch the argument of the
  print is the local variable \<^verbatim>\<open>identity_store_id\<close>, which is assigned only further
  down: evaluating it raises UnboundLocalError, whether printing is suppressed or not. In
  its last branch the given instance ARN is compared with the identity store id.
\<close>

definition identity_store_id :: "Ids \<Rightarrow> world \<Rightarrow> (error + string) \<times> Ids \<times> world" where
  "identity_store_id self w =
     (if truthy (priv_identity_store_id self) then
        (if \<not> priv_identity_store_id_printed self then
           (Inl (UnboundLocalError ''identity_store_id''), self, w)
         else (Inr (the (priv_identity_store_id self)), self, w))
      else
        (let w1 = call ListInstances w;
             instances = list_instances (priv_client self)
         in if length instances = 0 then
              (Inl (LookupError (''No SSO instance found, please specify identity store with '' @
                      ''--identity-store-id or instance with --instance-arn'')),
               self, w1)
            else if length instances > 1 then
              (Inl (LookupError (decimal (length instances) @
                      '' SSO instances found, please specify identity store with '' @
                      ''--identity-store-id or instance with --instance-arn'')),
               self, w1)
            else
              (let found_id = inst_IdentityStoreId (instances ! 0);
                   self1 = self\<lparr>priv_identity_store_id := Some found_id\<rparr>;
                   w2 = ids_print self1 (''Using SSO identity store '' @ found_id) w1;
                   self2 = self1\<lparr>priv_identity_store_id_printed := True\<rparr>;
                   found_arn = inst_InstanceArn (instances ! 0);
                   instance_id = last_segment found_arn
               in if truthy (priv_instance_arn self2) \<and>
                     priv_instance_arn self2 \<noteq> Some found_id then
                    (Inl (LookupError (''SSO instance '' @ instance_id @
                            '' does not match given instance '' @
                            last_segment (the (priv_instance_arn self2)))),
                     self2, w2)
                  else
                    (Inr found_id, self2\<lparr>priv_instance_arn := Some found_arn\<rparr>, w2))))"

definition lookup_group_by_name ::
  "identity_store_client \<Rightarrow> Ids \<Rightarrow> string \<Rightarrow> world \<Rightarrow> (error + string) \<times> Ids \<times> world" where
  "lookup_group_by_name identity_store_client ids name w =
     (case identity_store_id ids w of
        (Inl e, ids', w') \<Rightarrow> (Inl e, ids', w')
      | (Inr store_id, ids', w') \<Rightarrow>
          (let w'' = call (ListGroups store_id name) w';
               response = list_groups identity_store_client store_id name
           in if length response = 0 then
                (Inl (LookupError (''No group named '' @ name @ '' found'')), ids', w'')
              else if length response > 1 then
                (Inl (LookupError (decimal (length response) @ '' groups named '' @ name @
                        '' found'')), ids', w'')
              else (Inr (response ! 0), ids', w'')))"

definition lookup_user_by_name ::
  "identity_store_client \<Rightarrow> Ids \<Rightarrow> string \<Rightarrow> world \<Rightarrow> (error + string) \<times> Ids \<times> world" where
  "lookup_user_by_name identity_store_client ids name w =
     (case identity_store_id ids w of
        (Inl e, ids', w') \<Rightarrow> (Inl e, ids', w')
      | (Inr store_id, ids', w') \<Rightarrow>
          (let w'' = call (ListUsers store_id name) w';
               response = list_users identity_store_client store_id name
           in if length response = 0 then
                (Inl (LookupError (''No user named '' @ name @ '' found'')), ids', w'')
              else if length response > 1 then
                (Inl (LookupError (decimal (length response) @ '' users named '' @ name @
                        '' found'')), ids', w'')
              else (Inr (response ! 0), ids', w'')))"

text \<open>The class \<^verbatim>\<open>PermissionSetArnLookup\<close>; the paginator is that of its client.\<close>

record PermissionSetArnLookup =
  psl_client :: sso_admin_client
  psl_instance_arn :: string
  cache :: "string \<rightharpoonup> string"

definition PermissionSetArnLookup_init ::
  "sso_admin_client \<Rightarrow> Ids \<Rightarrow> world \<Rightarrow> (error + PermissionSetArnLookup) \<times> Ids \<times> world" where
  "PermissionSetArnLookup_init sso_admin_client ids w =
     (case instance_arn ids w of
        (Inl e, ids', w') \<Rightarrow> (Inl e, ids', w')
      | (Inr arn, ids', w') \<Rightarrow>
          (Inr \<lparr> psl_client = sso_admin_client, psl_instance_arn = arn, cache = Map.empty \<rparr>,
           ids', w'))"

text \<open>The inner loop over the permission sets of one page: describe each, fill the cache.\<close>

fun describe_loop ::
  "sso_admin_client \<Rightarrow> string \<Rightarrow> string list \<Rightarrow> (string \<rightharpoonup> string) \<times> world \<Rightarrow>
   (string \<rightharpoonup> string) \<times> world" where
  "describe_loop c arn [] st = st"
| "describe_loop c arn (permission_set_arn # rest) (cch, w) =
     (let w' = call (DescribePermissionSet arn permission_set_arn) w;
          ps_name = describe_permission_set c arn permission_set_arn
      in describe_loop c arn rest (cch(ps_name \<mapsto> permission_set_arn), w'))"

text \<open>
  The outer loop over the pages; a page is fetched when the loop reaches it. \<open>None\<close> is
  the loop running to its end.
\<close>

fun paginate_loop ::
  "sso_admin_client \<Rightarrow> string \<Rightarrow> string \<Rightarrow> string list list \<Rightarrow> (string \<rightharpoonup> string) \<times> world \<Rightarrow>
   string option \<times> (string \<rightharpoonup> string) \<times> world" where
  "paginate_loop c arn name [] st = (None, st)"
| "paginate_loop c arn name (response # pages) (cch, w) =
     (let st' = describe_loop c arn response (cch, call (ListPermissionSets arn) w)
      in case fst st' name of
           Some found \<Rightarrow> (Some found, st')
         | None \<Rightarrow> paginate_loop c arn name pages st')"

definition lookup_permission_set_arn ::
  "PermissionSetArnLookup \<Rightarrow> string \<Rightarrow> world \<Rightarrow>
   (error + string) \<times> PermissionSetArnLookup \<times> world" where
  "lookup_permission_set_arn self name w =
     (case cache self name of
        Some found \<Rightarrow> (Inr found, self, w)
      | None \<Rightarrow>
          (case paginate_loop (psl_client self) (psl_instance_arn self) name
                  (list_permission_sets (psl_client self) (psl_instance_arn self))
                  (cache self, w) of
             (Some found, cch, w') \<Rightarrow> (Inr found, self\<lparr>cache := cch\<rparr>, w')
           | (None, cch, w') \<Rightarrow>
               (Inl (LookupError (''No permission set named '' @ name @ '' found'')),
                self\<lparr>cache := cch\<rparr>, w')))"

text \<open>\<^verbatim>\<open>sep.join(parts)\<close>.\<close>

fun join :: "string \<Rightarrow> string list \<Rightarrow> string" where
  "join sep [] = []"
| "join sep [x] = x"
| "join sep (x # y # rest) = x @ sep @ join sep (y # rest)"

text \<open>\<^verbatim>\<open>max\<close> of an empty sequence raises ValueError.\<close>

definition format_lines :: "(string \<times> string) list \<Rightarrow> error + string" where
  "format_lines lines =
     (if lines = [] then Inl (ValueError ''max() arg is an empty sequence'')
      else (let max_len = foldr max (map (\<lambda>l. length (fst l)) lines) 0
            in Inr (join [CHR 0x0A] (map (\<lambda>l. ljust (fst l) max_len @ '': '' @ snd l) lines))))"

text \<open>
  The loop over \<^verbatim>\<open>args.value\<close>, which \<^verbatim>\<open>main\<close> has three times: for groups, for
  users and for permission sets. They differ in the lookup called, in the object the lookup
  works on (\<open>obj\<close>) and in the word of the message (\<open>kind\<close>). Only LookupError is caught;
  \<^verbatim>\<open>sys.exit(1)\<close> raises SystemExit.
\<close>

fun names_loop ::
  "('s \<Rightarrow> string \<Rightarrow> world \<Rightarrow> (error + string) \<times> 's \<times> world) \<Rightarrow> string \<Rightarrow> bool \<Rightarrow>
   string list \<Rightarrow> (string \<times> string) list \<Rightarrow> 's \<Rightarrow> world \<Rightarrow>
   (error + (string \<times> string) list) \<times> 's \<times> world" where
  "names_loop lookup kind flag [] lines obj w = (Inr lines, obj, w)"
| "names_loop lookup kind flag (name # rest) lines obj w =
     (case lookup obj name w of
        (Inr found, obj', w') \<Rightarrow> names_loop lookup kind flag rest (lines @ [(name, found)]) obj' w'
      | (Inl (LookupError msg), obj', w') \<Rightarrow>
          (if flag then
             (case format_lines lines of
                Inl e \<Rightarrow> (Inl e, obj', w')
              | Inr text \<Rightarrow>
                  (Inl (SystemExit 1), obj',
                   print_stderr (kind @ '' '' @ name @ '' not found'') (print_stdout text w')))
           else names_loop lookup kind flag rest (lines @ [(name, ''NOT_FOUND'')]) obj' w')
      | (Inl e, obj', w') \<Rightarrow> (Inl e, obj', w'))"

text \<open>\<^verbatim>\<open>parser.error(message)\<close> prints the message and exits with status 2.\<close>

definition parser_error :: "string \<Rightarrow> world \<Rightarrow> (error + unit) \<times> world" where
  "parser_error message w = (Inl (SystemExit 2), print_stderr message w)"

definition print_lines :: "(string \<times> string) list \<Rightarrow> world \<Rightarrow> (error + unit) \<times> world" where
  "print_lines lines w =
     (case format_lines lines of
        Inl e \<Rightarrow> (Inl e, w)
      | Inr text \<Rightarrow> (Inr (), print_stdout text w))"

text \<open>The body of the \<^verbatim>\<open>try\<close> statement of \<^verbatim>\<open>main\<close>.\<close>

definition main_try ::
  "args \<Rightarrow> sso_admin_client \<Rightarrow> identity_store_client \<Rightarrow> world \<Rightarrow> (error + unit) \<times> world" where
  "main_try a sso_admin_client identity_store_client w =
     (let ids = (Ids_init sso_admin_client a)\<lparr>suppress_print := \<not> show_id a\<rparr>
      in case arg_type a of
           Instance \<Rightarrow>
             (case instance_arn (ids\<lparr>suppress_print := True\<rparr>) w of
                (Inl e, ids', w') \<Rightarrow> (Inl e, w')
              | (Inr arn, ids', w') \<Rightarrow> (Inr (), print_stdout arn w'))
         | IdentityStore \<Rightarrow>
             (case identity_store_id (ids\<lparr>suppress_print := True\<rparr>) w of
                (Inl e, ids', w') \<Rightarrow> (Inl e, w')
              | (Inr store_id, ids', w') \<Rightarrow> (Inr (), print_stdout store_id w'))
         | Groups \<Rightarrow>
             (if arg_value a = [] then parser_error ''Group name is required'' w
              else (case names_loop (lookup_group_by_name identity_store_client) ''Group''
                           (error_if_not_found a) (arg_value a) [] ids w of
                      (Inl e, ids', w') \<Rightarrow> (Inl e, w')
                    | (Inr lines, ids', w') \<Rightarrow> print_lines lines w'))
         | Users \<Rightarrow>
             (if arg_value a = [] then parser_error ''User name is required'' w
              else (case names_loop (lookup_user_by_name identity_store_client) ''User''
                           (error_if_not_found a) (arg_value a) [] ids w of
                      (Inl e, ids', w') \<Rightarrow> (Inl e, w')
                    | (Inr lines, ids', w') \<Rightarrow> print_lines lines w'))
         | PermissionSets \<Rightarrow>
             (if arg_value a = [] then parser_error ''Permission set name is required'' w
              else (case PermissionSetArnLookup_init sso_admin_client ids w of
                      (Inl e, ids', w') \<Rightarrow> (Inl e, w')
                    | (Inr lookup, ids', w') \<Rightarrow>
                        (case names_loop lookup_permission_set_arn ''Permission set''
                                (error_if_not_found a) (arg_value a) [] lookup w' of
                           (Inl e, lookup', w'') \<Rightarrow> (Inl e, w'')
                         | (Inr lines, lookup', w'') \<Rightarrow> print_lines lines w''))))"

text \<open>
  \<^verbatim>\<open>main\<close>: a LookupError that leaves the \<^verbatim>\<open>try\<close> body is printed to the standard
  error and the program exits with status 1; any other exception leaves \<^verbatim>\<open>main\<close>.
\<close>

definition main :: "args \<Rightarrow> sso_admin_client \<Rightarrow> identity_store_client \<Rightarrow> world \<Rightarrow> (error + unit) \<times> world" where
  "main a sso_admin_client identity_store_client w =
     (case main_try a sso_admin_client identity_store_client w of
        (Inl (LookupError msg), w') \<Rightarrow> (Inl (SystemExit 1), print_stderr msg w')
      | r \<Rightarrow> r)"

text \<open>
  A caller that makes one call of \<open>lookup_permission_set_arn\<close> after the other on the
  same object, whatever each call returns or raises. It states what "every subsequent
  call" is.
\<close>

fun run_lookups ::
  "PermissionSetArnLookup \<Rightarrow> string list \<Rightarrow> world \<Rightarrow> PermissionSetArnLookup \<times> world" where
  "run_lookups self [] w = (self, w)"
| "run_lookups self (name # rest) w =
     (case lookup_permission_set_arn self name w of
        (r, self', w') \<Rightarrow> run_lookups self' rest w')"

section \<open>Reference formulations used in the statements\<close>

text \<open>
  The value of a decimal numeral, read digit by digit. It inverts \<open>decimal\<close> and ignores
  leading zeros, which is why two indices never get the same resource name.
\<close>

definition digit_val :: "char \<Rightarrow> nat" where
  "digit_val c = of_char c - 48"

definition str_val :: "string \<Rightarrow> nat" where
  "str_val s = foldl (\<lambda>acc c. 10 * acc + digit_val c) 0 s"

text \<open>
  The name of the resource with a given index, and a list of resources numbered from an
  index on: what the loops of \<open>get_templates\<close> append, written without the loops.
\<close>

definition resource_name :: "nat \<Rightarrow> string" where
  "resource_name index = ''Assignment'' @ format_03d index"

fun number_from :: "nat \<Rightarrow> 'a list \<Rightarrow> (string \<times> 'a) list" where
  "number_from index [] = []"
| "number_from index (x # xs) = (resource_name index, x) # number_from (Suc index) xs"

text \<open>
  The conversion that \<open>get_templates\<close> applies to a principal id and to a target id.
\<close>

definition ref_or_str :: "string \<Rightarrow> cfn_value" where
  "ref_or_str s = (if startswith s REF_PREFIX then Ref (drop (length REF_PREFIX) s) else Str s)"

text \<open>
  What the three loops of \<open>generate_resources\<close> compute, written as a comprehension over
  the functions the loops call. The proofs about the loops go through it.
\<close>

definition loop_resources ::
  "string \<Rightarrow> string \<Rightarrow> (string \<times> string) list \<Rightarrow> string list \<Rightarrow> (string \<times> string) list \<Rightarrow>
   resource list" where
  "loop_resources ia iid principals psets targets =
     concat (map (\<lambda>p.
       concat (map (\<lambda>ps.
         map (\<lambda>t. get_resource ia (fst p, ref_or_str (snd p)) (permission_set_arn_of iid ps)
                    (fst t, ref_or_str (snd t))) targets) psets)) principals)"

definition loop_targets :: "(string \<Rightarrow> string list) \<Rightarrow> Input \<Rightarrow> (string \<times> string) list" where
  "loop_targets fetched input =
     map (\<lambda>account. (TARGET_TYPE_ACCOUNT, account))
       (concat (map fetched (ous input)) @ accounts input)"

definition loop_principals :: "Input \<Rightarrow> (string \<times> string) list" where
  "loop_principals input =
     map (\<lambda>g. (PRINCIPAL_TYPE_GROUP, g)) (groups input) @
     map (\<lambda>u. (PRINCIPAL_TYPE_USER, u)) (users input)"

text \<open>
  The assignments as the specification words them, with every field written out: one
  resource per combination of principal, permission set and target. The principals are the
  groups followed by the users and are outermost, the permission sets come next, the
  targets are the accounts fetched for the OUs followed by the accounts listed explicitly
  and are innermost. A value that starts with \<^verbatim>\<open>!Ref=\<close> becomes a reference; a permission
  set is an ARN as it is, or is completed to one, with the instance id where it has none.
\<close>

definition spec_assignment :: "string \<Rightarrow> string \<Rightarrow> string \<Rightarrow> string \<Rightarrow> string \<Rightarrow> resource" where
  "spec_assignment instance principal_type principal_id permission_set account =
     (let arn = (if take 3 instance = ''arn'' then instance
                 else ''arn:aws:sso:::instance/'' @ instance);
          instance_id = rev (takeWhile (\<lambda>c. c \<noteq> CHR ''/'') (rev arn))
      in \<lparr> Type = ''AWS::SSO::Assignment'',
           Properties =
             \<lparr> InstanceArn = arn,
               PrincipalType = principal_type,
               PrincipalId = (if take 5 principal_id = ''!Ref='' then Ref (drop 5 principal_id)
                              else Str principal_id),
               PermissionSetArn =
                 (if take 3 permission_set = ''arn'' then Str permission_set
                  else if take 5 permission_set = ''!Ref='' then Ref (drop 5 permission_set)
                  else if take 6 permission_set = ''ssoins'' \<or> take 3 permission_set = ''ins''
                    then Str (''arn:aws:sso:::permissionSet/'' @ permission_set)
                  else Str (''arn:aws:sso:::permissionSet/'' @ instance_id @ ''/'' @
                            permission_set)),
               TargetType = ''AWS_ACCOUNT'',
               TargetId = (if take 5 account = ''!Ref='' then Ref (drop 5 account)
                           else Str account) \<rparr> \<rparr>)"

definition spec_assignments :: "string \<Rightarrow> Input \<Rightarrow> (string \<Rightarrow> string list) \<Rightarrow> resource list" where
  "spec_assignments instance input fetched =
     concat (map (\<lambda>(principal_type, principal_id).
       concat (map (\<lambda>permission_set.
         map (\<lambda>account.
                spec_assignment instance principal_type principal_id permission_set account)
             (concat (map fetched (ous input)) @ accounts input))
         (permission_sets input)))
       (map (\<lambda>g. (''GROUP'', g)) (groups input) @ map (\<lambda>u. (''USER'', u)) (users input)))"

section \<open>Properties of template.py\<close>

subsection \<open>Chunking\<close>

lemma slice_take_drop: "slice lst i (i + n) = take n (drop i lst)"
  by (simp add: slice_def)

lemma concat_slices_upto:
  "concat (map (\<lambda>i. slice lst i (i + n)) (map (\<lambda>k. k * n) [0..<m])) = take (m * n) lst"
proof (induction m)
  case 0
  show ?case by simp
next
  case (Suc m)
  have "take (m * n) lst @ take n (drop (m * n) lst) = take (m * n + n) lst"
    by (simp add: take_add)
  with Suc show ?case
    by (simp add: slice_take_drop add.commute)
qed

lemma range_step_covers:
  fixes n len :: nat
  assumes n: "0 < n"
  shows "len \<le> ((len + n - 1) div n) * n"
proof -
  define q where "q = (len + n - 1) div n"
  define r where "r = (len + n - 1) mod n"
  have "r < n"
    unfolding r_def using n by (rule mod_less_divisor)
  moreover have "q * n + r = len + n - 1"
    unfolding q_def r_def by (rule div_mult_mod_eq)
  ultimately have "len \<le> q * n"
    by linarith
  then show ?thesis
    by (simp only: q_def)
qed

lemma concat_range_step_slices:
  "0 < n \<Longrightarrow> concat (map (\<lambda>i. slice lst i (i + n)) (range_step (length lst) n)) = lst"
proof -
  assume "0 < n"
  then have "length lst \<le> ((length lst + n - 1) div n) * n"
    by (rule range_step_covers)
  then show ?thesis
    by (simp only: range_step_def concat_slices_upto take_all)
qed

text \<open>
  Claim C3. For every list and every chunk length \<open>n \<ge> 1\<close>,
  \<open>chunk_list_generator\<close> returns chunks (it is a function of its arguments, so the
  chunks are determined by them), and the chunks concatenated in order are exactly the
  original list: nothing is lost, duplicated or reordered.
\<close>

theorem chunk_list_generator_concat:
  "1 \<le> n \<Longrightarrow> \<exists>chunks. chunk_list_generator lst n = Inr chunks \<and> concat chunks = lst"
  using concat_range_step_slices [of "nat n" lst]
  by (simp add: chunk_list_generator_def)

theorem chunk_list_generator_concat_witness:
  "(1::int) \<le> 2 \<and>
   (\<exists>chunks. chunk_list_generator [1, 2, 3, 4, 5 :: nat] 2 = Inr chunks \<and>
      concat chunks = [1, 2, 3, 4, 5])"
  using chunk_list_generator_concat [of 2 "[1, 2, 3, 4, 5 :: nat]"] by simp

lemma length_od_setitem: "length (od_setitem k v d) \<le> Suc (length d)"
  by (induction d) auto

lemma length_fold_od_setitem:
  "length (fold (\<lambda>(k, v) d. od_setitem k v d) pairs d) \<le> length pairs + length d"
proof (induction pairs arbitrary: d)
  case Nil
  show ?case by simp
next
  case (Cons p pairs)
  obtain k v where p: "p = (k, v)" by (cases p)
  have "length (fold (\<lambda>(k, v) d. od_setitem k v d) pairs (od_setitem k v d))
          \<le> length pairs + length (od_setitem k v d)"
    by (rule Cons.IH)
  also have "\<dots> \<le> length pairs + Suc (length d)"
    using length_od_setitem [of k v d] by simp
  finally show ?case by (simp add: p)
qed

lemma length_OrderedDict: "length (OrderedDict pairs) \<le> length pairs"
  using length_fold_od_setitem [of pairs "[]"] by (simp add: OrderedDict_def)

lemma chunk_lengths:
  "chunk_list_generator lst n = Inr chunks \<Longrightarrow> c \<in> set chunks \<Longrightarrow> int (length c) \<le> n"
  by (auto simp: chunk_list_generator_def slice_def split: if_splits)

subsection \<open>Resource names\<close>

lemma digit_val_digit_char: "d < 10 \<Longrightarrow> digit_val (digit_char d) = d"
  by (simp add: digit_val_def digit_char_def)

lemma str_val_snoc: "str_val (s @ [c]) = 10 * str_val s + digit_val c"
  by (simp add: str_val_def)

lemma str_val_decimal: "str_val (decimal n) = n"
proof (induction n rule: decimal.induct)
  case (1 n)
  show ?case
  proof (cases "n < 10")
    case True
    then show ?thesis
      by (simp add: decimal.simps [of n] str_val_def digit_val_digit_char)
  next
    case False
    have "str_val (decimal n) = 10 * str_val (decimal (n div 10)) + digit_val (digit_char (n mod 10))"
      using False by (simp add: decimal.simps [of n] str_val_snoc)
    also have "\<dots> = 10 * (n div 10) + n mod 10"
      using False "1.IH" by (simp add: digit_val_digit_char)
    finally show ?thesis by simp
  qed
qed

lemma foldl_zeros:
  "foldl (\<lambda>acc c. 10 * acc + digit_val c) 0 (replicate k CHR ''0'') = 0"
  by (induction k) (simp_all add: digit_val_def)

lemma str_val_format_03d: "str_val (format_03d n) = n"
proof -
  have "str_val (format_03d n) = str_val (decimal n)"
    by (simp add: format_03d_def str_val_def foldl_zeros)
  then show ?thesis by (simp add: str_val_decimal)
qed

lemma inj_resource_name: "inj resource_name"
proof (rule injI)
  fix i j
  assume "resource_name i = resource_name j"
  then have "format_03d i = format_03d j"
    by (simp add: resource_name_def)
  then have "str_val (format_03d i) = str_val (format_03d j)"
    by simp
  then show "i = j"
    by (simp only: str_val_format_03d)
qed

lemma number_from_append:
  "number_from index (xs @ ys) = number_from index xs @ number_from (index + length xs) ys"
  by (induction xs arbitrary: index) simp_all

lemma map_fst_number_from:
  "map fst (number_from index xs) = map resource_name [index..<index + length xs]"
proof (induction xs arbitrary: index)
  case Nil
  show ?case by simp
next
  case (Cons x xs)
  have "index < index + length (x # xs)"
    by simp
  then have "[index..<index + length (x # xs)] = index # [Suc index..<index + length (x # xs)]"
    by (rule upt_conv_Cons)
  moreover have "index + length (x # xs) = Suc index + length xs"
    by simp
  ultimately have "[index..<index + length (x # xs)] = index # [Suc index..<Suc index + length xs]"
    by (simp only:)
  then show ?case
    by (simp only: number_from.simps list.map fst_conv Cons.IH)
qed

lemma map_snd_number_from: "map snd (number_from index xs) = xs"
  by (induction xs arbitrary: index) simp_all

lemma length_number_from: "length (number_from index xs) = length xs"
  by (induction xs arbitrary: index) simp_all

lemma distinct_number_from: "distinct (map fst (number_from index xs))"
  by (simp add: map_fst_number_from distinct_map inj_resource_name [THEN inj_on_subset])

subsection \<open>The loops of get_templates\<close>

lemma targets_loop_eq:
  "targets_loop ia p psa ts (index, resources) =
     (index + length ts,
      resources @ number_from index (map (\<lambda>t. get_resource ia p psa (fst t, ref_or_str (snd t))) ts))"
proof (induction ts arbitrary: index resources)
  case Nil
  show ?case by simp
next
  case (Cons t ts)
  show ?case
    by (simp add: Cons.IH Let_def ref_or_str_def resource_name_def)
qed

lemma permission_sets_loop_eq:
  "permission_sets_loop ia iid p psets targets (index, resources) =
     (index + length psets * length targets,
      resources @ number_from index
        (concat (map (\<lambda>ps. map (\<lambda>t. get_resource ia p (permission_set_arn_of iid ps)
                                        (fst t, ref_or_str (snd t))) targets) psets)))"
proof (induction psets arbitrary: index resources)
  case Nil
  show ?case by simp
next
  case (Cons ps psets)
  show ?case
    by (simp add: targets_loop_eq Cons.IH number_from_append add.assoc)
qed

lemma principals_loop_eq:
  "principals_loop ia iid principals psets targets (index, resources) =
     (index + length principals * (length psets * length targets),
      resources @ number_from index (loop_resources ia iid principals psets targets))"
proof (induction principals arbitrary: index resources)
  case Nil
  show ?case by (simp add: loop_resources_def)
next
  case (Cons p principals)
  have len: "length (concat (map (\<lambda>ps. map (\<lambda>t. get_resource ia (fst p, ref_or_str (snd p))
                 (permission_set_arn_of iid ps) (fst t, ref_or_str (snd t))) targets) psets))
             = length psets * length targets"
    by (induction psets) simp_all
  have unfold: "loop_resources ia iid (p # principals) psets targets =
      concat (map (\<lambda>ps. map (\<lambda>t. get_resource ia (fst p, ref_or_str (snd p))
                 (permission_set_arn_of iid ps) (fst t, ref_or_str (snd t))) targets) psets)
      @ loop_resources ia iid principals psets targets"
    by (simp add: loop_resources_def)
  have step: "principals_loop ia iid (p # principals) psets targets (index, resources) =
      principals_loop ia iid principals psets targets
        (permission_sets_loop ia iid (fst p, ref_or_str (snd p)) psets targets (index, resources))"
    by (simp add: ref_or_str_def Let_def)
  show ?case
    by (simp only: step permission_sets_loop_eq Cons.IH unfold number_from_append len)
       (simp add: add.assoc)
qed

lemma length_loop_resources:
  "length (loop_resources ia iid principals psets targets) =
     length principals * length psets * length targets"
proof -
  have inner: "\<And>p. length (concat (map (\<lambda>ps. map (\<lambda>t. get_resource ia (fst p, ref_or_str (snd p))
                 (permission_set_arn_of iid ps) (fst t, ref_or_str (snd t))) targets) psets))
             = length psets * length targets"
    by (induction psets) simp_all
  show ?thesis
    unfolding loop_resources_def
    by (induction principals) (simp_all add: inner algebra_simps)
qed

lemma ous_loop_eq:
  "\<forall>ou\<in>set os. ou_fetcher ou = Inr (fetched ou) \<Longrightarrow>
   ous_loop ou_fetcher os targets =
     Inr (targets @ map (\<lambda>account. (TARGET_TYPE_ACCOUNT, account)) (concat (map fetched os)))"
  by (induction os arbitrary: targets) simp_all

lemma od_setitem_fresh: "k \<notin> fst ` set d \<Longrightarrow> od_setitem k v d = d @ [(k, v)]"
  by (induction d) auto

lemma fold_od_setitem_distinct:
  "distinct (map fst (d @ pairs)) \<Longrightarrow>
   fold (\<lambda>(k, v) d. od_setitem k v d) pairs d = d @ pairs"
proof (induction pairs arbitrary: d)
  case Nil
  show ?case by simp
next
  case (Cons p pairs)
  obtain k v where p: "p = (k, v)" by (cases p)
  from Cons.prems have fresh: "k \<notin> fst ` set d"
    by (auto simp: p)
  from Cons.prems have "distinct (map fst ((d @ [(k, v)]) @ pairs))"
    by (simp add: p)
  then have "fold (\<lambda>(k, v) d. od_setitem k v d) pairs (d @ [(k, v)]) = (d @ [(k, v)]) @ pairs"
    by (rule Cons.IH)
  then show ?case
    by (simp add: p od_setitem_fresh [OF fresh])
qed

lemma OrderedDict_distinct: "distinct (map fst pairs) \<Longrightarrow> OrderedDict pairs = pairs"
  using fold_od_setitem_distinct [of "[]" pairs] by (simp add: OrderedDict_def)

lemma distinct_slice: "distinct (map fst xs) \<Longrightarrow> distinct (map fst (slice xs i j))"
  by (simp add: slice_def take_map [symmetric] drop_map [symmetric])

lemma chunks_distinct:
  "distinct (map fst lst) \<Longrightarrow> chunk_list_generator lst n = Inr chunks \<Longrightarrow>
   map OrderedDict chunks = chunks"
  by (auto simp: chunk_list_generator_def distinct_slice OrderedDict_distinct
      intro!: map_idI split: if_splits)

lemma chunks_concat_helper:
  "1 \<le> n \<Longrightarrow> \<exists>chunks. chunk_list_generator lst n = Inr chunks \<and> concat chunks = lst"
  using concat_range_step_slices [of "nat n" lst]
  by (simp add: chunk_list_generator_def)

lemma concat_map_Resources:
  "concat (map Resources (map (\<lambda>rsc. \<lparr> AWSTemplateFormatVersion = v, Resources = OrderedDict rsc \<rparr>) chunks))
     = concat (map OrderedDict chunks)"
  by (simp add: comp_def)

lemma generate_resources_unfold:
  "generate_resources instance input ou_fetcher =
     (case ous_loop ou_fetcher (ous input) [] of
        Inl e \<Rightarrow> Inl e
      | Inr targets0 \<Rightarrow>
          Inr (number_from 1 (loop_resources (instance_arn_of instance)
                 (last_segment (instance_arn_of instance)) (loop_principals input)
                 (permission_sets input)
                 (targets0 @ map (\<lambda>account. (TARGET_TYPE_ACCOUNT, account)) (accounts input)))))"
  by (simp add: generate_resources_def Let_def principals_loop_eq loop_principals_def
      split: sum.splits)

lemma get_templates_unfold:
  "get_templates instance input ou_fetcher n =
     (case ous_loop ou_fetcher (ous input) [] of
        Inl e \<Rightarrow> Inl e
      | Inr targets0 \<Rightarrow>
          (case chunk_list_generator
                  (number_from 1 (loop_resources (instance_arn_of instance)
                     (last_segment (instance_arn_of instance)) (loop_principals input)
                     (permission_sets input)
                     (targets0 @ map (\<lambda>account. (TARGET_TYPE_ACCOUNT, account)) (accounts input)))) n of
             Inl e \<Rightarrow> Inl e
           | Inr chunks \<Rightarrow>
               Inr (map (\<lambda>rsc. \<lparr> AWSTemplateFormatVersion = ''2010-09-09'',
                                 Resources = OrderedDict rsc \<rparr>) chunks)))"
  by (simp add: get_templates_def generate_resources_unfold split: sum.splits)

lemma get_templates_resources:
  assumes "get_templates instance input ou_fetcher n = Inr templates" and "1 \<le> n"
  shows "\<exists>targets0. ous_loop ou_fetcher (ous input) [] = Inr targets0 \<and>
     concat (map Resources templates) =
       number_from 1 (loop_resources (instance_arn_of instance)
          (last_segment (instance_arn_of instance)) (loop_principals input)
          (permission_sets input)
          (targets0 @ map (\<lambda>account. (TARGET_TYPE_ACCOUNT, account)) (accounts input)))"
proof -
  from assms(1) obtain targets0 chunks where
    t0: "ous_loop ou_fetcher (ous input) [] = Inr targets0" and
    ch: "chunk_list_generator
           (number_from 1 (loop_resources (instance_arn_of instance)
              (last_segment (instance_arn_of instance)) (loop_principals input)
              (permission_sets input)
              (targets0 @ map (\<lambda>account. (TARGET_TYPE_ACCOUNT, account)) (accounts input)))) n
         = Inr chunks" and
    ts: "templates = map (\<lambda>rsc. \<lparr> AWSTemplateFormatVersion = ''2010-09-09'',
                                 Resources = OrderedDict rsc \<rparr>) chunks"
    by (auto simp: get_templates_unfold split: sum.splits)
  let ?rs = "number_from 1 (loop_resources (instance_arn_of instance)
              (last_segment (instance_arn_of instance)) (loop_principals input)
              (permission_sets input)
              (targets0 @ map (\<lambda>account. (TARGET_TYPE_ACCOUNT, account)) (accounts input)))"
  have "map OrderedDict chunks = chunks"
    using distinct_number_from ch by (rule chunks_distinct)
  moreover have "concat chunks = ?rs"
    using chunks_concat_helper [OF assms(2), of ?rs] ch by simp
  ultimately have "concat (map Resources templates) = ?rs"
    by (simp only: ts concat_map_Resources)
  with t0 show ?thesis by blast
qed

lemma get_templates_names:
  assumes "get_templates instance input ou_fetcher n = Inr templates"
  shows "\<exists>k. concat (map Resources templates) = number_from 1 k"
proof (cases "1 \<le> n")
  case True
  with assms show ?thesis
    using get_templates_resources by blast
next
  case False
  with assms have "templates = []"
    by (auto simp: get_templates_unfold chunk_list_generator_def split: sum.splits if_splits)
  then have "concat (map Resources templates) = number_from 1 ([] :: resource list)"
    by simp
  then show ?thesis by blast
qed

lemma get_templates_returns:
  assumes "\<forall>ou\<in>set (ous input). ou_fetcher ou = Inr (fetched ou)" and "1 \<le> n"
  shows "\<exists>templates. get_templates instance input ou_fetcher n = Inr templates"
proof -
  have "ous_loop ou_fetcher (ous input) [] =
          Inr ([] @ map (\<lambda>account. (TARGET_TYPE_ACCOUNT, account)) (concat (map fetched (ous input))))"
    using assms(1) by (rule ous_loop_eq)
  moreover obtain chunks where "chunk_list_generator
           (number_from 1 (loop_resources (instance_arn_of instance)
              (last_segment (instance_arn_of instance)) (loop_principals input)
              (permission_sets input)
              (([] @ map (\<lambda>account. (TARGET_TYPE_ACCOUNT, account)) (concat (map fetched (ous input))))
                 @ map (\<lambda>account. (TARGET_TYPE_ACCOUNT, account)) (accounts input)))) n
         = Inr chunks"
    using chunks_concat_helper [OF assms(2)] by blast
  ultimately show ?thesis
    by (simp add: get_templates_unfold)
qed

lemma length_decimal_small: "n < 1000 \<Longrightarrow> length (decimal n) \<le> 3"
  by (simp add: decimal.simps [of n] decimal.simps [of "n div 10"]
      decimal.simps [of "n div 10 div 10"])

lemma length_format_03d: "3 \<le> length (format_03d n)"
  by (simp add: format_03d_def)

lemma length_format_03d_small: "n < 1000 \<Longrightarrow> length (format_03d n) = 3"
  using length_decimal_small [of n] by (simp add: format_03d_def)

lemma length_decimal_pos: "0 < length (decimal n)"
  by (simp add: decimal.simps [of n])

lemma length_decimal_large:
  assumes "1000 \<le> n"
  shows "3 < length (decimal n)"
proof -
  from assms have a: "\<not> n < 10" and b: "\<not> n div 10 < 10" and c: "\<not> n div 10 div 10 < 10"
    by simp_all
  have "length (decimal n) = length (decimal (n div 10 div 10 div 10)) + 3"
    using a b c
    by (simp add: decimal.simps [of n] decimal.simps [of "n div 10"]
        decimal.simps [of "n div 10 div 10"])
  with length_decimal_pos [of "n div 10 div 10 div 10"] show ?thesis
    by simp
qed

lemma length_format_03d_large: "1000 \<le> n \<Longrightarrow> 3 < length (format_03d n)"
  using length_decimal_large [of n] by (simp add: format_03d_def)

lemma get_templates_chunks:
  assumes "get_templates instance input ou_fetcher n = Inr templates"
  obtains lst :: "(string \<times> resource) list" and chunks where
    "chunk_list_generator lst n = Inr chunks" and
    "templates = map (\<lambda>rsc. \<lparr> AWSTemplateFormatVersion = ''2010-09-09'',
                                 Resources = OrderedDict rsc \<rparr>) chunks"
  using assms by (auto simp: get_templates_unfold split: sum.splits)

text \<open>
  Claim C2. For every input and every configured batch size \<open>n \<ge> 1\<close>, every template
  that \<open>get_templates\<close> produces contains at most \<open>n\<close> resources.
\<close>

theorem get_templates_batch_size:
  assumes "1 \<le> n"
    and "get_templates instance input ou_fetcher n = Inr templates"
    and "t \<in> set templates"
  shows "int (length (Resources t)) \<le> n"
proof -
  from assms(2) obtain lst :: "(string \<times> resource) list" and rsc where
    ch: "chunk_list_generator lst n = Inr rsc" and
    ts: "templates = map (\<lambda>rsc. \<lparr> AWSTemplateFormatVersion = ''2010-09-09'',
                                 Resources = OrderedDict rsc \<rparr>) rsc"
    by (rule get_templates_chunks)
  from assms(3) obtain c where c: "c \<in> set rsc" and r: "Resources t = OrderedDict c"
    by (auto simp: ts)
  have "int (length c) \<le> n"
    using ch c by (rule chunk_lengths)
  moreover have "length (OrderedDict c) \<le> length c"
    by (rule length_OrderedDict)
  ultimately show ?thesis
    by (simp add: r)
qed

theorem get_templates_batch_size_witness:
  "(1::int) \<le> 1 \<and>
   get_templates ''ssoins-1234''
       \<lparr> groups = [''Admins''], users = [], permission_sets = [''ps-1''],
          ous = [''ou-1''], accounts = [''333333333333''] \<rparr>
       (\<lambda>ou. Inr [''111111111111'']) 1
     = Inr [
        \<lparr> AWSTemplateFormatVersion = ''2010-09-09'',
          Resources = [(''Assignment001'',
            \<lparr> Type = ''AWS::SSO::Assignment'',
              Properties = \<lparr> InstanceArn = ''arn:aws:sso:::instance/ssoins-1234'',
                PrincipalType = ''GROUP'', PrincipalId = Str ''Admins'',
                PermissionSetArn = Str ''arn:aws:sso:::permissionSet/ssoins-1234/ps-1'',
                TargetType = ''AWS_ACCOUNT'', TargetId = Str ''111111111111'' \<rparr> \<rparr>)] \<rparr>,
        \<lparr> AWSTemplateFormatVersion = ''2010-09-09'',
          Resources = [(''Assignment002'',
            \<lparr> Type = ''AWS::SSO::Assignment'',
              Properties = \<lparr> InstanceArn = ''arn:aws:sso:::instance/ssoins-1234'',
                PrincipalType = ''GROUP'', PrincipalId = Str ''Admins'',
                PermissionSetArn = Str ''arn:aws:sso:::permissionSet/ssoins-1234/ps-1'',
                TargetType = ''AWS_ACCOUNT'', TargetId = Str ''333333333333'' \<rparr> \<rparr>)] \<rparr>] \<and>
   int (length (Resources
        \<lparr> AWSTemplateFormatVersion = ''2010-09-09'',
          Resources = [(''Assignment002'',
            \<lparr> Type = ''AWS::SSO::Assignment'',
              Properties = \<lparr> InstanceArn = ''arn:aws:sso:::instance/ssoins-1234'',
                PrincipalType = ''GROUP'', PrincipalId = Str ''Admins'',
                PermissionSetArn = Str ''arn:aws:sso:::permissionSet/ssoins-1234/ps-1'',
                TargetType = ''AWS_ACCOUNT'', TargetId = Str ''333333333333'' \<rparr> \<rparr>)] \<rparr>)) \<le> 1"
proof -
  let ?t1 = "\<lparr> AWSTemplateFormatVersion = ''2010-09-09'',
          Resources = [(''Assignment001'',
            \<lparr> Type = ''AWS::SSO::Assignment'',
              Properties = \<lparr> InstanceArn = ''arn:aws:sso:::instance/ssoins-1234'',
                PrincipalType = ''GROUP'', PrincipalId = Str ''Admins'',
                PermissionSetArn = Str ''arn:aws:sso:::permissionSet/ssoins-1234/ps-1'',
                TargetType = ''AWS_ACCOUNT'', TargetId = Str ''111111111111'' \<rparr> \<rparr>)] \<rparr>"
  let ?t2 = "\<lparr> AWSTemplateFormatVersion = ''2010-09-09'',
          Resources = [(''Assignment002'',
            \<lparr> Type = ''AWS::SSO::Assignment'',
              Properties = \<lparr> InstanceArn = ''arn:aws:sso:::instance/ssoins-1234'',
                PrincipalType = ''GROUP'', PrincipalId = Str ''Admins'',
                PermissionSetArn = Str ''arn:aws:sso:::permissionSet/ssoins-1234/ps-1'',
                TargetType = ''AWS_ACCOUNT'', TargetId = Str ''333333333333'' \<rparr> \<rparr>)] \<rparr>"
  have run: "get_templates ''ssoins-1234''
       \<lparr> groups = [''Admins''], users = [], permission_sets = [''ps-1''],
          ous = [''ou-1''], accounts = [''333333333333''] \<rparr>
       (\<lambda>ou. Inr [''111111111111'']) 1 = Inr [?t1, ?t2]"
    by code_simp
  have mem: "?t2 \<in> set [?t1, ?t2]"
    by simp
  have "(1::int) \<le> 1"
    by simp
  then have "int (length (Resources ?t2)) \<le> 1"
    using run mem by (rule get_templates_batch_size)
  with run show ?thesis
    by simp
qed

lemma last_number_from:
  "xs \<noteq> [] \<Longrightarrow> fst (last (number_from index xs)) = resource_name (index + length xs - 1)"
proof -
  assume ne: "xs \<noteq> []"
  then have "number_from index xs \<noteq> []"
    by (cases xs) simp_all
  then have "fst (last (number_from index xs)) = last (map fst (number_from index xs))"
    by (simp add: last_map)
  also have "\<dots> = last (map resource_name [index..<index + length xs])"
    by (simp only: map_fst_number_from)
  also have "\<dots> = resource_name (last [index..<index + length xs])"
    using ne by (simp add: last_map)
  also have "last [index..<index + length xs] = index + length xs - 1"
    using ne by simp
  finally show ?thesis .
qed

text \<open>
  Claim C8, as amended. Across all templates of one call of \<open>get_templates\<close>, the
  resources are named \<open>Assignment\<close> followed by the decimal index of the resource, filled
  with zeros to a width of at least three digits: the first is \<open>Assignment001\<close>, the index
  grows by one per resource in generation order, and all names differ. The numeral has
  exactly three digits for the indices below 1000 and more than three from 1000 on.
\<close>

theorem get_templates_resource_names:
  assumes "get_templates instance input ou_fetcher n = Inr templates"
  shows "map fst (concat (map Resources templates)) =
           map (\<lambda>index. ''Assignment'' @ format_03d index)
               [1..<Suc (length (concat (map Resources templates)))] \<and>
         distinct (map fst (concat (map Resources templates))) \<and>
         format_03d 1 = ''001'' \<and>
         (\<forall>index. 3 \<le> length (format_03d index) \<and>
                  (index < 1000 \<longrightarrow> length (format_03d index) = 3) \<and>
                  (1000 \<le> index \<longrightarrow> 3 < length (format_03d index)))"
proof -
  from assms obtain k :: "resource list" where
    k: "concat (map Resources templates) = number_from 1 k"
    using get_templates_names by blast
  have "map fst (number_from 1 k) = map resource_name [1..<1 + length k]"
    by (rule map_fst_number_from)
  then have names: "map fst (concat (map Resources templates)) =
           map (\<lambda>index. ''Assignment'' @ format_03d index)
               [1..<Suc (length (concat (map Resources templates)))]"
    by (simp add: k length_number_from resource_name_def [abs_def])
  have dist: "distinct (map fst (concat (map Resources templates)))"
    by (simp only: k distinct_number_from)
  have one: "format_03d 1 = ''001''"
    by code_simp
  from names dist one show ?thesis
    by (simp add: length_format_03d length_format_03d_small length_format_03d_large)
qed

theorem get_templates_resource_names_witness:
  "get_templates ''arn:aws:sso:::instance/ssoins-1234''
       \<lparr> groups = [''Admins''], users = [''!Ref=UserParam''],
          permission_sets = [''arn:aws:sso:::permissionSet/ssoins-1234/ps-1''],
          ous = [], accounts = [''333333333333''] \<rparr>
       (\<lambda>ou. Inr []) 200
     = Inr [
        \<lparr> AWSTemplateFormatVersion = ''2010-09-09'',
          Resources = [(''Assignment001'',
            \<lparr> Type = ''AWS::SSO::Assignment'',
              Properties = \<lparr> InstanceArn = ''arn:aws:sso:::instance/ssoins-1234'',
                PrincipalType = ''GROUP'', PrincipalId = Str ''Admins'',
                PermissionSetArn = Str ''arn:aws:sso:::permissionSet/ssoins-1234/ps-1'',
                TargetType = ''AWS_ACCOUNT'', TargetId = Str ''333333333333'' \<rparr> \<rparr>),
           (''Assignment002'',
            \<lparr> Type = ''AWS::SSO::Assignment'',
              Properties = \<lparr> InstanceArn = ''arn:aws:sso:::instance/ssoins-1234'',
                PrincipalType = ''USER'', PrincipalId = Ref ''UserParam'',
                PermissionSetArn = Str ''arn:aws:sso:::permissionSet/ssoins-1234/ps-1'',
                TargetType = ''AWS_ACCOUNT'', TargetId = Str ''333333333333'' \<rparr> \<rparr>)] \<rparr>] \<and>
   map fst (concat (map Resources [
        \<lparr> AWSTemplateFormatVersion = ''2010-09-09'',
          Resources = [(''Assignment001'',
            \<lparr> Type = ''AWS::SSO::Assignment'',
              Properties = \<lparr> InstanceArn = ''arn:aws:sso:::instance/ssoins-1234'',
                PrincipalType = ''GROUP'', PrincipalId = Str ''Admins'',
                PermissionSetArn = Str ''arn:aws:sso:::permissionSet/ssoins-1234/ps-1'',
                TargetType = ''AWS_ACCOUNT'', TargetId = Str ''333333333333'' \<rparr> \<rparr>),
           (''Assignment002'',
            \<lparr> Type = ''AWS::SSO::Assignment'',
              Properties = \<lparr> InstanceArn = ''arn:aws:sso:::instance/ssoins-1234'',
                PrincipalType = ''USER'', PrincipalId = Ref ''UserParam'',
                PermissionSetArn = Str ''arn:aws:sso:::permissionSet/ssoins-1234/ps-1'',
                TargetType = ''AWS_ACCOUNT'', TargetId = Str ''333333333333'' \<rparr> \<rparr>)] \<rparr>])) = [''Assignment001'', ''Assignment002''] \<and>
   distinct [''Assignment001'', ''Assignment002'']"
proof -
  let ?t = "\<lparr> AWSTemplateFormatVersion = ''2010-09-09'',
          Resources = [(''Assignment001'',
            \<lparr> Type = ''AWS::SSO::Assignment'',
              Properties = \<lparr> InstanceArn = ''arn:aws:sso:::instance/ssoins-1234'',
                PrincipalType = ''GROUP'', PrincipalId = Str ''Admins'',
                PermissionSetArn = Str ''arn:aws:sso:::permissionSet/ssoins-1234/ps-1'',
                TargetType = ''AWS_ACCOUNT'', TargetId = Str ''333333333333'' \<rparr> \<rparr>),
           (''Assignment002'',
            \<lparr> Type = ''AWS::SSO::Assignment'',
              Properties = \<lparr> InstanceArn = ''arn:aws:sso:::instance/ssoins-1234'',
                PrincipalType = ''USER'', PrincipalId = Ref ''UserParam'',
                PermissionSetArn = Str ''arn:aws:sso:::permissionSet/ssoins-1234/ps-1'',
                TargetType = ''AWS_ACCOUNT'', TargetId = Str ''333333333333'' \<rparr> \<rparr>)] \<rparr>"
  have run: "get_templates ''arn:aws:sso:::instance/ssoins-1234''
       \<lparr> groups = [''Admins''], users = [''!Ref=UserParam''],
          permission_sets = [''arn:aws:sso:::permissionSet/ssoins-1234/ps-1''],
          ous = [], accounts = [''333333333333''] \<rparr>
       (\<lambda>ou. Inr []) 200 = Inr [?t]"
    by code_simp
  have "distinct (map fst (concat (map Resources [?t])))"
    using get_templates_resource_names [OF run] by (rule conjunct2 [THEN conjunct1])
  with run show ?thesis
    by simp
qed

lemma get_templates_last_name:
  assumes ous: "ous input = []" and n: "1 \<le> n"
    and N: "N = (length (groups input) + length (users input)) * length (permission_sets input) *
                length (accounts input)"
    and pos: "0 < N"
  shows "\<exists>templates. get_templates instance input ou_fetcher n = Inr templates \<and>
           fst (last (concat (map Resources templates))) = resource_name N"
proof -
  have "\<forall>ou\<in>set (ous input). ou_fetcher ou = Inr []"
    by (simp add: ous)
  then have "\<exists>templates. get_templates instance input ou_fetcher n = Inr templates"
    using n by (rule get_templates_returns [where fetched = "\<lambda>ou. []"])
  then obtain templates where
    run: "get_templates instance input ou_fetcher n = Inr templates" ..
  from get_templates_resources [OF run n] obtain targets0 where
    rs: "concat (map Resources templates) =
       number_from 1 (loop_resources (instance_arn_of instance)
          (last_segment (instance_arn_of instance)) (loop_principals input)
          (permission_sets input)
          (targets0 @ map (\<lambda>account. (TARGET_TYPE_ACCOUNT, account)) (accounts input)))" and
    t0: "ous_loop ou_fetcher (ous input) [] = Inr targets0"
    by blast
  from t0 have t0_nil: "targets0 = []"
    by (simp add: ous)
  define rs where "rs = loop_resources (instance_arn_of instance)
          (last_segment (instance_arn_of instance)) (loop_principals input)
          (permission_sets input)
          (targets0 @ map (\<lambda>account. (TARGET_TYPE_ACCOUNT, account)) (accounts input))"
  have len: "length rs = N"
    by (simp add: rs_def length_loop_resources loop_principals_def t0_nil N)
  with pos have "rs \<noteq> []"
    by auto
  then have "fst (last (number_from 1 rs)) = resource_name (1 + length rs - 1)"
    by (rule last_number_from)
  then have "fst (last (number_from 1 rs)) = resource_name N"
    by (simp add: len)
  then have "fst (last (concat (map Resources templates))) = resource_name N"
    by (simp only: rs rs_def)
  with run show ?thesis
    by blast
qed

text \<open>
  With ten groups, ten permission sets and ten accounts the last of the 1000 resources is
  named \<open>Assignment1000\<close>: its index has four digits, not three.
\<close>

theorem get_templates_resource_names_counterexample:
  "\<exists>templates.
     get_templates ''ssoins-1234''
       \<lparr> groups = [''g0'', ''g1'', ''g2'', ''g3'', ''g4'', ''g5'', ''g6'', ''g7'', ''g8'', ''g9''],
          users = [],
          permission_sets = [''p0'', ''p1'', ''p2'', ''p3'', ''p4'', ''p5'', ''p6'', ''p7'', ''p8'', ''p9''],
          ous = [],
          accounts = [''a0'', ''a1'', ''a2'', ''a3'', ''a4'', ''a5'', ''a6'', ''a7'', ''a8'', ''a9''] \<rparr>
       (\<lambda>ou. Inr []) 200 = Inr templates \<and>
     fst (last (concat (map Resources templates))) = ''Assignment1000''"
proof -
  have name: "resource_name 1000 = ''Assignment1000''"
    by code_simp
  show ?thesis
    by (rule get_templates_last_name [where N = 1000, unfolded name]) simp_all
qed

subsection \<open>One assignment per combination\<close>

lemma ref_or_str_explicit:
  "ref_or_str s = (if take 5 s = ''!Ref='' then Ref (drop 5 s) else Str s)"
  by (simp add: ref_or_str_def startswith_def REF_PREFIX_def eval_nat_numeral)

lemma instance_arn_of_explicit:
  "instance_arn_of instance =
     (if take 3 instance = ''arn'' then instance else ''arn:aws:sso:::instance/'' @ instance)"
  by (simp add: instance_arn_of_def startswith_def eval_nat_numeral)

lemma permission_set_arn_of_explicit:
  "permission_set_arn_of instance_id permission_set =
     (if take 3 permission_set = ''arn'' then Str permission_set
      else if take 5 permission_set = ''!Ref='' then Ref (drop 5 permission_set)
      else if take 6 permission_set = ''ssoins'' \<or> take 3 permission_set = ''ins''
        then Str (''arn:aws:sso:::permissionSet/'' @ permission_set)
      else Str (''arn:aws:sso:::permissionSet/'' @ instance_id @ ''/'' @ permission_set))"
  by (simp add: permission_set_arn_of_def startswith_def REF_PREFIX_def eval_nat_numeral)



lemma get_resource_spec:
  "get_resource (instance_arn_of instance) (principal_type, ref_or_str principal_id)
     (permission_set_arn_of (last_segment (instance_arn_of instance)) permission_set)
     (TARGET_TYPE_ACCOUNT, ref_or_str account) =
   spec_assignment instance principal_type principal_id permission_set account"
  by (simp only: get_resource_def spec_assignment_def ref_or_str_explicit
      permission_set_arn_of_explicit instance_arn_of_explicit last_segment_def
      TARGET_TYPE_ACCOUNT_def Let_def fst_conv snd_conv)


lemma loop_resources_spec:
  "loop_resources (instance_arn_of instance) (last_segment (instance_arn_of instance))
     (loop_principals input) (permission_sets input) (loop_targets fetched input) =
   spec_assignments instance input fetched"
  by (simp add: loop_resources_def loop_principals_def loop_targets_def spec_assignments_def
      PRINCIPAL_TYPE_GROUP_def PRINCIPAL_TYPE_USER_def comp_def get_resource_spec)

lemma get_templates_negative_batch:
  assumes "generate_resources instance input ou_fetcher = Inr resources" and "n < 0"
  shows "get_templates instance input ou_fetcher n = Inr []"
  using assms by (simp add: get_templates_def chunk_list_generator_def)

text \<open>
  Claim C9. When every call of \<open>ou_fetcher\<close> returns, \<open>get_templates\<close> generates,
  whatever the batch size, exactly one assignment resource per combination of principal,
  permission set and target, each with the fields of its combination:
  \<open>(|groups| + |users|) * |permission sets| * |targets|\<close> resources, principals
  outermost (all groups, then all users), permission sets next, targets innermost (the
  accounts fetched for the OUs, then the accounts listed explicitly). For a batch size of
  at least 1 the templates returned hold exactly these resources, in this order.
\<close>

theorem get_templates_combinations:
  assumes "\<forall>ou\<in>set (ous input). ou_fetcher ou = Inr (fetched ou)"
  shows "\<exists>resources.
     generate_resources instance input ou_fetcher = Inr resources \<and>
     map snd resources = spec_assignments instance input fetched \<and>
     length resources =
       (length (groups input) + length (users input)) * length (permission_sets input) *
       (length (concat (map fetched (ous input))) + length (accounts input)) \<and>
     (1 \<le> n \<longrightarrow>
        (\<exists>templates. get_templates instance input ou_fetcher n = Inr templates \<and>
           concat (map Resources templates) = resources))"
proof -
  define resources where "resources =
    number_from 1 (loop_resources (instance_arn_of instance)
      (last_segment (instance_arn_of instance)) (loop_principals input)
      (permission_sets input) (loop_targets fetched input))"
  have ol: "ous_loop ou_fetcher (ous input) [] =
          Inr ([] @ map (\<lambda>account. (TARGET_TYPE_ACCOUNT, account)) (concat (map fetched (ous input))))"
    using assms by (rule ous_loop_eq)
  have gen: "generate_resources instance input ou_fetcher = Inr resources"
    by (simp add: generate_resources_unfold ol resources_def loop_targets_def)
  have vals: "map snd resources = spec_assignments instance input fetched"
    by (simp only: resources_def map_snd_number_from loop_resources_spec)
  have "length resources =
      length (loop_principals input) * length (permission_sets input) *
      length (loop_targets fetched input)"
    by (simp only: resources_def length_number_from length_loop_resources)
  then have len: "length resources =
       (length (groups input) + length (users input)) * length (permission_sets input) *
       (length (concat (map fetched (ous input))) + length (accounts input))"
    by (simp add: loop_principals_def loop_targets_def)
  have out: "\<exists>templates. get_templates instance input ou_fetcher n = Inr templates \<and>
           concat (map Resources templates) = resources" if n: "1 \<le> n"
  proof -
    from assms n have "\<exists>templates. get_templates instance input ou_fetcher n = Inr templates"
      by (rule get_templates_returns)
    then obtain templates where
      run: "get_templates instance input ou_fetcher n = Inr templates" ..
    from get_templates_resources [OF run n] obtain targets0 where
      rs: "concat (map Resources templates) =
         number_from 1 (loop_resources (instance_arn_of instance)
            (last_segment (instance_arn_of instance)) (loop_principals input)
            (permission_sets input)
            (targets0 @ map (\<lambda>account. (TARGET_TYPE_ACCOUNT, account)) (accounts input)))" and
      t0: "ous_loop ou_fetcher (ous input) [] = Inr targets0"
      by blast
    from t0 ol have "targets0 =
        map (\<lambda>account. (TARGET_TYPE_ACCOUNT, account)) (concat (map fetched (ous input)))"
      by simp
    then have "targets0 @ map (\<lambda>account. (TARGET_TYPE_ACCOUNT, account)) (accounts input)
        = loop_targets fetched input"
      by (simp add: loop_targets_def)
    with rs have "concat (map Resources templates) = resources"
      by (simp only: resources_def)
    with run show ?thesis
      by blast
  qed
  from gen vals len out show ?thesis
    by blast
qed


theorem get_templates_combinations_witness:
  "(\<lambda>ou. if ou = ''ou-1'' then Inr [''111''] else Inl (ValueError ''unknown OU'')) ''ou-1'' = Inr ((\<lambda>ou. [''111'']) ''ou-1'') \<and>
   (1::int) \<le> 200 \<and>
   (\<exists>resources.
      generate_resources ''ssoins-1234''
        \<lparr> groups = [''Admins''], users = [''!Ref=UserParam''],
          permission_sets = [''ps-1'', ''arn:aws:sso:::permissionSet/ssoins-9/ps-9''],
          ous = [''ou-1''], accounts = [''333''] \<rparr>
        (\<lambda>ou. if ou = ''ou-1'' then Inr [''111''] else Inl (ValueError ''unknown OU'')) = Inr resources \<and>
      map snd resources = [
          \<lparr> Type = ''AWS::SSO::Assignment'',
            Properties = \<lparr> InstanceArn = ''arn:aws:sso:::instance/ssoins-1234'',
              PrincipalType = ''GROUP'', PrincipalId = Str ''Admins'',
              PermissionSetArn = Str ''arn:aws:sso:::permissionSet/ssoins-1234/ps-1'',
              TargetType = ''AWS_ACCOUNT'', TargetId = Str ''111'' \<rparr> \<rparr>,
          \<lparr> Type = ''AWS::SSO::Assignment'',
            Properties = \<lparr> InstanceArn = ''arn:aws:sso:::instance/ssoins-1234'',
              PrincipalType = ''GROUP'', PrincipalId = Str ''Admins'',
              PermissionSetArn = Str ''arn:aws:sso:::permissionSet/ssoins-1234/ps-1'',
              TargetType = ''AWS_ACCOUNT'', TargetId = Str ''333'' \<rparr> \<rparr>,
          \<lparr> Type = ''AWS::SSO::Assignment'',
            Properties = \<lparr> InstanceArn = ''arn:aws:sso:::instance/ssoins-1234'',
              PrincipalType = ''GROUP'', PrincipalId = Str ''Admins'',
              PermissionSetArn = Str ''arn:aws:sso:::permissionSet/ssoins-9/ps-9'',
              TargetType = ''AWS_ACCOUNT'', TargetId = Str ''111'' \<rparr> \<rparr>,
          \<lparr> Type = ''AWS::SSO::Assignment'',
            Properties = \<lparr> InstanceArn = ''arn:aws:sso:::instance/ssoins-1234'',
              PrincipalType = ''GROUP'', PrincipalId = Str ''Admins'',
              PermissionSetArn = Str ''arn:aws:sso:::permissionSet/ssoins-9/ps-9'',
              TargetType = ''AWS_ACCOUNT'', TargetId = Str ''333'' \<rparr> \<rparr>,
          \<lparr> Type = ''AWS::SSO::Assignment'',
            Properties = \<lparr> InstanceArn = ''arn:aws:sso:::instance/ssoins-1234'',
              PrincipalType = ''USER'', PrincipalId = Ref ''UserParam'',
              PermissionSetArn = Str ''arn:aws:sso:::permissionSet/ssoins-1234/ps-1'',
              TargetType = ''AWS_ACCOUNT'', TargetId = Str ''111'' \<rparr> \<rparr>,
          \<lparr> Type = ''AWS::SSO::Assignment'',
            Properties = \<lparr> InstanceArn = ''arn:aws:sso:::instance/ssoins-1234'',
              PrincipalType = ''USER'', PrincipalId = Ref ''UserParam'',
              PermissionSetArn = Str ''arn:aws:sso:::permissionSet/ssoins-1234/ps-1'',
              TargetType = ''AWS_ACCOUNT'', TargetId = Str ''333'' \<rparr> \<rparr>,
          \<lparr> Type = ''AWS::SSO::Assignment'',
            Properties = \<lparr> InstanceArn = ''arn:aws:sso:::instance/ssoins-1234'',
              PrincipalType = ''USER'', PrincipalId = Ref ''UserParam'',
              PermissionSetArn = Str ''arn:aws:sso:::permissionSet/ssoins-9/ps-9'',
              TargetType = ''AWS_ACCOUNT'', TargetId = Str ''111'' \<rparr> \<rparr>,
          \<lparr> Type = ''AWS::SSO::Assignment'',
            Properties = \<lparr> InstanceArn = ''arn:aws:sso:::instance/ssoins-1234'',
              PrincipalType = ''USER'', PrincipalId = Ref ''UserParam'',
              PermissionSetArn = Str ''arn:aws:sso:::permissionSet/ssoins-9/ps-9'',
              TargetType = ''AWS_ACCOUNT'', TargetId = Str ''333'' \<rparr> \<rparr>] \<and>
      length resources = 8 \<and>
      (\<exists>templates.
         get_templates ''ssoins-1234''
           \<lparr> groups = [''Admins''], users = [''!Ref=UserParam''],
          permission_sets = [''ps-1'', ''arn:aws:sso:::permissionSet/ssoins-9/ps-9''],
          ous = [''ou-1''], accounts = [''333''] \<rparr>
           (\<lambda>ou. if ou = ''ou-1'' then Inr [''111''] else Inl (ValueError ''unknown OU'')) 200 = Inr templates \<and>
         concat (map Resources templates) = resources))"
proof -
  let ?input = "\<lparr> groups = [''Admins''], users = [''!Ref=UserParam''],
          permission_sets = [''ps-1'', ''arn:aws:sso:::permissionSet/ssoins-9/ps-9''],
          ous = [''ou-1''], accounts = [''333''] \<rparr>"
  let ?fetcher = "(\<lambda>ou. if ou = ''ou-1'' then Inr [''111''] else Inl (ValueError ''unknown OU''))"
  let ?fetched = "(\<lambda>ou. [''111'']) :: string \<Rightarrow> string list"
  let ?expected = "[
          \<lparr> Type = ''AWS::SSO::Assignment'',
            Properties = \<lparr> InstanceArn = ''arn:aws:sso:::instance/ssoins-1234'',
              PrincipalType = ''GROUP'', PrincipalId = Str ''Admins'',
              PermissionSetArn = Str ''arn:aws:sso:::permissionSet/ssoins-1234/ps-1'',
              TargetType = ''AWS_ACCOUNT'', TargetId = Str ''111'' \<rparr> \<rparr>,
          \<lparr> Type = ''AWS::SSO::Assignment'',
            Properties = \<lparr> InstanceArn = ''arn:aws:sso:::instance/ssoins-1234'',
              PrincipalType = ''GROUP'', PrincipalId = Str ''Admins'',
              PermissionSetArn = Str ''arn:aws:sso:::permissionSet/ssoins-1234/ps-1'',
              TargetType = ''AWS_ACCOUNT'', TargetId = Str ''333'' \<rparr> \<rparr>,
          \<lparr> Type = ''AWS::SSO::Assignment'',
            Properties = \<lparr> InstanceArn = ''arn:aws:sso:::instance/ssoins-1234'',
              PrincipalType = ''GROUP'', PrincipalId = Str ''Admins'',
              PermissionSetArn = Str ''arn:aws:sso:::permissionSet/ssoins-9/ps-9'',
              TargetType = ''AWS_ACCOUNT'', TargetId = Str ''111'' \<rparr> \<rparr>,
          \<lparr> Type = ''AWS::SSO::Assignment'',
            Properties = \<lparr> InstanceArn = ''arn:aws:sso:::instance/ssoins-1234'',
              PrincipalType = ''GROUP'', PrincipalId = Str ''Admins'',
              PermissionSetArn = Str ''arn:aws:sso:::permissionSet/ssoins-9/ps-9'',
              TargetType = ''AWS_ACCOUNT'', TargetId = Str ''333'' \<rparr> \<rparr>,
          \<lparr> Type = ''AWS::SSO::Assignment'',
            Properties = \<lparr> InstanceArn = ''arn:aws:sso:::instance/ssoins-1234'',
              PrincipalType = ''USER'', PrincipalId = Ref ''UserParam'',
              PermissionSetArn = Str ''arn:aws:sso:::permissionSet/ssoins-1234/ps-1'',
              TargetType = ''AWS_ACCOUNT'', TargetId = Str ''111'' \<rparr> \<rparr>,
          \<lparr> Type = ''AWS::SSO::Assignment'',
            Properties = \<lparr> InstanceArn = ''arn:aws:sso:::instance/ssoins-1234'',
              PrincipalType = ''USER'', PrincipalId = Ref ''UserParam'',
              PermissionSetArn = Str ''arn:aws:sso:::permissionSet/ssoins-1234/ps-1'',
              TargetType = ''AWS_ACCOUNT'', TargetId = Str ''333'' \<rparr> \<rparr>,
          \<lparr> Type = ''AWS::SSO::Assignment'',
            Properties = \<lparr> InstanceArn = ''arn:aws:sso:::instance/ssoins-1234'',
              PrincipalType = ''USER'', PrincipalId = Ref ''UserParam'',
              PermissionSetArn = Str ''arn:aws:sso:::permissionSet/ssoins-9/ps-9'',
              TargetType = ''AWS_ACCOUNT'', TargetId = Str ''111'' \<rparr> \<rparr>,
          \<lparr> Type = ''AWS::SSO::Assignment'',
            Properties = \<lparr> InstanceArn = ''arn:aws:sso:::instance/ssoins-1234'',
              PrincipalType = ''USER'', PrincipalId = Ref ''UserParam'',
              PermissionSetArn = Str ''arn:aws:sso:::permissionSet/ssoins-9/ps-9'',
              TargetType = ''AWS_ACCOUNT'', TargetId = Str ''333'' \<rparr> \<rparr>]"
  have fetch: "\<forall>ou\<in>set (ous ?input). ?fetcher ou = Inr (?fetched ou)"
    by simp
  have n: "(1::int) \<le> 200"
    by simp
  have vals: "spec_assignments ''ssoins-1234'' ?input ?fetched = ?expected"
    by code_simp
  have count: "(length (groups ?input) + length (users ?input)) * length (permission_sets ?input) *
       (length (concat (map ?fetched (ous ?input))) + length (accounts ?input)) = 8"
    by simp
  from get_templates_combinations [OF fetch, of "''ssoins-1234''" 200] obtain resources where
    all: "generate_resources ''ssoins-1234'' ?input ?fetcher = Inr resources \<and>
      map snd resources = spec_assignments ''ssoins-1234'' ?input ?fetched \<and>
      length resources =
        (length (groups ?input) + length (users ?input)) * length (permission_sets ?input) *
        (length (concat (map ?fetched (ous ?input))) + length (accounts ?input)) \<and>
      ((1::int) \<le> 200 \<longrightarrow>
        (\<exists>templates. get_templates ''ssoins-1234'' ?input ?fetcher 200 = Inr templates \<and>
           concat (map Resources templates) = resources))" ..
  from all have gen: "generate_resources ''ssoins-1234'' ?input ?fetcher = Inr resources"
    by (rule conjunct1)
  from all have "map snd resources = spec_assignments ''ssoins-1234'' ?input ?fetched"
    by (rule conjunct2 [THEN conjunct1])
  then have rs: "map snd resources = ?expected"
    by (simp only: vals)
  from all have "length resources =
        (length (groups ?input) + length (users ?input)) * length (permission_sets ?input) *
        (length (concat (map ?fetched (ous ?input))) + length (accounts ?input))"
    by (rule conjunct2 [THEN conjunct2, THEN conjunct1])
  then have len: "length resources = 8"
    by (simp only: count)
  from all have "(1::int) \<le> 200 \<longrightarrow>
        (\<exists>templates. get_templates ''ssoins-1234'' ?input ?fetcher 200 = Inr templates \<and>
           concat (map Resources templates) = resources)"
    by (rule conjunct2 [THEN conjunct2, THEN conjunct2])
  then have out: "\<exists>templates. get_templates ''ssoins-1234'' ?input ?fetcher 200 = Inr templates \<and>
           concat (map Resources templates) = resources"
    using n by (rule mp)
  have "\<exists>resources.
      generate_resources ''ssoins-1234'' ?input ?fetcher = Inr resources \<and>
      map snd resources = ?expected \<and>
      length resources = 8 \<and>
      (\<exists>templates. get_templates ''ssoins-1234'' ?input ?fetcher 200 = Inr templates \<and>
         concat (map Resources templates) = resources)"
    using gen rs len out by (intro exI [of _ resources] conjI)
  moreover have "?fetcher ''ou-1'' = Inr (?fetched ''ou-1'')"
    by simp
  ultimately show ?thesis
    using n by (intro conjI)
qed

subsection \<open>The walk over the organizational units\<close>

lemma account_pages_loop_eq: "account_pages_loop pages accts = accts @ concat pages"
  by (induction pages arbitrary: accts) simp_all

lemma sub_ous_loop_eq:
  "\<forall>t\<in>set ts. walk (ou_id t) = Some (subtree_accounts t) \<Longrightarrow>
   sub_ous_loop walk (map ou_id ts) accts = Some (accts @ concat (map subtree_accounts ts))"
  by (induction ts arbitrary: accts) simp_all

lemma ou_pages_loop_eq:
  "\<forall>page\<in>set subs. \<forall>t\<in>set page. walk (ou_id t) = Some (subtree_accounts t) \<Longrightarrow>
   ou_pages_loop walk (map (map ou_id) subs) accts =
     Some (accts @ concat (map (\<lambda>page. concat (map subtree_accounts page)) subs))"
  by (induction subs arbitrary: accts) (simp_all add: sub_ous_loop_eq)

lemma height_le_foldr_max: "t \<in> set xs \<Longrightarrow> height t \<le> foldr max (map height xs) 0"
  by (induction xs) auto

lemma height_child:
  "page \<in> set subs \<Longrightarrow> t \<in> set page \<Longrightarrow> height t \<le> foldr max (map height (concat subs)) 0"
  by (rule height_le_foldr_max) auto

text \<open>
  Claim C4. For every finite tree of organizational units that the service describes,
  \<open>get_accounts_for_ou\<close> returns (every amount of fuel from the height of the tree on
  is enough), and it returns exactly the accounts of the subtree below the given unit: the
  accounts of every descendant unit, recursively, followed by the accounts directly under
  the unit.
\<close>

theorem get_accounts_for_ou_subtree:
  "describes c t \<Longrightarrow> height t \<le> fuel \<Longrightarrow>
   get_accounts_for_ou fuel c (ou_id t) = Some (subtree_accounts t)"
proof (induction fuel arbitrary: t)
  case 0
  then show ?case by (cases t) simp
next
  case (Suc fuel)
  obtain i subs accts where t: "t = OU i subs accts"
    by (cases t)
  have "\<forall>page\<in>set subs. \<forall>s\<in>set page.
          get_accounts_for_ou fuel c (ou_id s) = Some (subtree_accounts s)"
  proof (intro ballI)
    fix page s
    assume p: "page \<in> set subs" and s: "s \<in> set page"
    from Suc.prems(1) p s have "describes c s"
      by (simp add: t)
    moreover have "height s \<le> fuel"
      using height_child [OF p s] Suc.prems(2) by (simp add: t)
    ultimately show "get_accounts_for_ou fuel c (ou_id s) = Some (subtree_accounts s)"
      by (rule Suc.IH)
  qed
  then have "ou_pages_loop (get_accounts_for_ou fuel c) (map (map ou_id) subs) [] =
      Some ([] @ concat (map (\<lambda>page. concat (map subtree_accounts page)) subs))"
    by (rule ou_pages_loop_eq)
  moreover from Suc.prems(1) have "list_organizational_units_for_parent c i = map (map ou_id) subs"
    and "list_accounts_for_parent c i = accts"
    by (simp_all add: t)
  ultimately show ?case
    by (simp add: t account_pages_loop_eq)
qed

theorem get_accounts_for_ou_subtree_witness:
  "describes
     \<lparr> list_organizational_units_for_parent =
          (\<lambda>parent. if parent = ''r-root'' then [[''ou-a''], [''ou-b'']]
                     else if parent = ''ou-b'' then [[''ou-c'']] else []),
        list_accounts_for_parent =
          (\<lambda>parent. if parent = ''r-root'' then [[''000'']]
                     else if parent = ''ou-a'' then [[''111'']]
                     else if parent = ''ou-b'' then [[''222'']]
                     else if parent = ''ou-c'' then [[''333''], [''444'']] else []) \<rparr>
     (OU ''r-root''
        [[OU ''ou-a'' [] [[''111'']]],
         [OU ''ou-b'' [[OU ''ou-c'' [] [[''333''], [''444'']]]] [[''222'']]]]
        [[''000'']]) \<and>
   height (OU ''r-root''
        [[OU ''ou-a'' [] [[''111'']]],
         [OU ''ou-b'' [[OU ''ou-c'' [] [[''333''], [''444'']]]] [[''222'']]]]
        [[''000'']]) \<le> 3 \<and>
   get_accounts_for_ou 3
     \<lparr> list_organizational_units_for_parent =
          (\<lambda>parent. if parent = ''r-root'' then [[''ou-a''], [''ou-b'']]
                     else if parent = ''ou-b'' then [[''ou-c'']] else []),
        list_accounts_for_parent =
          (\<lambda>parent. if parent = ''r-root'' then [[''000'']]
                     else if parent = ''ou-a'' then [[''111'']]
                     else if parent = ''ou-b'' then [[''222'']]
                     else if parent = ''ou-c'' then [[''333''], [''444'']] else []) \<rparr>
     ''r-root'' = Some [''111'', ''333'', ''444'', ''222'', ''000'']"
proof -
  let ?c = "\<lparr> list_organizational_units_for_parent =
          (\<lambda>parent. if parent = ''r-root'' then [[''ou-a''], [''ou-b'']]
                     else if parent = ''ou-b'' then [[''ou-c'']] else []),
        list_accounts_for_parent =
          (\<lambda>parent. if parent = ''r-root'' then [[''000'']]
                     else if parent = ''ou-a'' then [[''111'']]
                     else if parent = ''ou-b'' then [[''222'']]
                     else if parent = ''ou-c'' then [[''333''], [''444'']] else []) \<rparr>"
  let ?t = "OU ''r-root''
        [[OU ''ou-a'' [] [[''111'']]],
         [OU ''ou-b'' [[OU ''ou-c'' [] [[''333''], [''444'']]]] [[''222'']]]]
        [[''000'']]"
  have d: "describes ?c ?t"
    by simp
  have h: "height ?t \<le> 3"
    by simp
  have "get_accounts_for_ou 3 ?c (ou_id ?t) = Some (subtree_accounts ?t)"
    using d h by (rule get_accounts_for_ou_subtree)
  then have "get_accounts_for_ou 3 ?c ''r-root'' = Some [''111'', ''333'', ''444'', ''222'', ''000'']"
    by simp
  with d h show ?thesis
    by (intro conjI)
qed

section \<open>Properties of lookup.py\<close>

subsection \<open>The identifiers and the loop over the names\<close>

text \<open>
  Claim C10 fails on the code. With \<^verbatim>\<open>--identity-store-id d-1234567890\<close> the command
  \<^verbatim>\<open>identity-store\<close> does not print the supplied value: the first read of the
  property raises UnboundLocalError, which \<^verbatim>\<open>main\<close> does not catch. No call is made to
  the service.
\<close>

theorem identity_store_id_supplied_raises:
  "main \<lparr> arg_type = IdentityStore, arg_value = [], arg_instance_arn = None,
          arg_identity_store_id = Some ''d-1234567890'', error_if_not_found = False,
          show_id = False \<rparr>
        \<lparr> list_instances = [\<lparr> inst_InstanceArn = ''arn:aws:sso:::instance/ssoins-1234'',
                              inst_IdentityStoreId = ''d-1234567890'' \<rparr>],
          list_permission_sets = (\<lambda>arn. []),
          describe_permission_set = (\<lambda>arn ps. []) \<rparr>
        \<lparr> list_groups = (\<lambda>store name. []), list_users = (\<lambda>store name. []) \<rparr>
        \<lparr> remote_calls = [], stdout = [], stderr = [] \<rparr>
   = (Inl (UnboundLocalError ''identity_store_id''),
      \<lparr> remote_calls = [], stdout = [], stderr = [] \<rparr>)"
  by code_simp

lemma identity_store_id_supplied_always_raises:
  "identity_store_id (Ids_init c (a\<lparr>arg_identity_store_id := Some (x # xs)\<rparr>)) w =
     (Inl (UnboundLocalError ''identity_store_id''),
      Ids_init c (a\<lparr>arg_identity_store_id := Some (x # xs)\<rparr>), w)"
  by (simp add: identity_store_id_def Ids_init_def)

text \<open>
  Claim C7 fails on the code. The service reports exactly one instance, and its ARN is the
  one given with \<^verbatim>\<open>--instance-arn\<close>; the property compares the given ARN with the
  identity store id instead of the instance ARN, so the lookup raises LookupError and the
  program exits with status 1.
\<close>

theorem identity_store_id_matching_instance_raises:
  "main \<lparr> arg_type = IdentityStore, arg_value = [],
          arg_instance_arn = Some ''arn:aws:sso:::instance/ssoins-1234'',
          arg_identity_store_id = None, error_if_not_found = False, show_id = False \<rparr>
        \<lparr> list_instances = [\<lparr> inst_InstanceArn = ''arn:aws:sso:::instance/ssoins-1234'',
                              inst_IdentityStoreId = ''d-1234567890'' \<rparr>],
          list_permission_sets = (\<lambda>arn. []),
          describe_permission_set = (\<lambda>arn ps. []) \<rparr>
        \<lparr> list_groups = (\<lambda>store name. []), list_users = (\<lambda>store name. []) \<rparr>
        \<lparr> remote_calls = [], stdout = [], stderr = [] \<rparr>
   = (Inl (SystemExit 1),
      \<lparr> remote_calls = [ListInstances], stdout = [],
        stderr = [''SSO instance ssoins-1234 does not match given instance ssoins-1234''] \<rparr>)"
  by code_simp

text \<open>
  The defect behind C7 does not depend on the concrete values: whenever an instance ARN is
  given, no identity store id is given and the service reports one instance, the property
  raises unless the given ARN happens to be equal to the identity store id.
\<close>

lemma identity_store_id_given_instance_raises:
  assumes "list_instances c = [inst]" and "arn \<noteq> []" and "inst_IdentityStoreId inst \<noteq> arn"
  shows "\<exists>msg. fst (identity_store_id
           (Ids_init c (a\<lparr>arg_instance_arn := Some arn, arg_identity_store_id := None\<rparr>)) w)
         = Inl (LookupError msg)"
  using assms by (auto simp: identity_store_id_def Ids_init_def Let_def)

text \<open>
  Claim C6 fails on the code when the first failing name is the first name. With
  \<^verbatim>\<open>--error-if-not-found\<close> and the single unknown group \<^verbatim>\<open>nosuch\<close>, the lines found
  so far are empty, \<^verbatim>\<open>format_lines([])\<close> raises ValueError before the not-found message
  is printed, and the exception leaves \<^verbatim>\<open>main\<close>: nothing reaches the standard error.
\<close>

theorem main_error_if_not_found_first_name:
  "main \<lparr> arg_type = Groups, arg_value = [''nosuch''], arg_instance_arn = None,
          arg_identity_store_id = None, error_if_not_found = True, show_id = False \<rparr>
        \<lparr> list_instances = [\<lparr> inst_InstanceArn = ''arn:aws:sso:::instance/ssoins-1234'',
                              inst_IdentityStoreId = ''d-1234567890'' \<rparr>],
          list_permission_sets = (\<lambda>arn. []),
          describe_permission_set = (\<lambda>arn ps. []) \<rparr>
        \<lparr> list_groups = (\<lambda>store name. if name = ''Admins'' then [''g-1''] else []),
          list_users = (\<lambda>store name. []) \<rparr>
        \<lparr> remote_calls = [], stdout = [], stderr = [] \<rparr>
   = (Inl (ValueError ''max() arg is an empty sequence''),
      \<lparr> remote_calls = [ListInstances, ListGroups ''d-1234567890'' ''nosuch''],
        stdout = [], stderr = [] \<rparr>)"
  by code_simp

lemma main_error_if_not_found_later_name:
  "main \<lparr> arg_type = Groups, arg_value = [''Admins'', ''nosuch'', ''Admins''], arg_instance_arn = None,
          arg_identity_store_id = None, error_if_not_found = True, show_id = False \<rparr>
        \<lparr> list_instances = [\<lparr> inst_InstanceArn = ''arn:aws:sso:::instance/ssoins-1234'',
                              inst_IdentityStoreId = ''d-1234567890'' \<rparr>],
          list_permission_sets = (\<lambda>arn. []),
          describe_permission_set = (\<lambda>arn ps. []) \<rparr>
        \<lparr> list_groups = (\<lambda>store name. if name = ''Admins'' then [''g-1''] else []),
          list_users = (\<lambda>store name. []) \<rparr>
        \<lparr> remote_calls = [], stdout = [], stderr = [] \<rparr>
   = (Inl (SystemExit 1),
      \<lparr> remote_calls = [ListInstances, ListGroups ''d-1234567890'' ''Admins'',
                        ListGroups ''d-1234567890'' ''nosuch''],
        stdout = [''Admins: g-1''], stderr = [''Group nosuch not found''] \<rparr>)"
  by code_simp

lemma main_continue_on_error:
  "main \<lparr> arg_type = Groups, arg_value = [''nosuch'', ''Admins''], arg_instance_arn = None,
          arg_identity_store_id = None, error_if_not_found = False, show_id = False \<rparr>
        \<lparr> list_instances = [\<lparr> inst_InstanceArn = ''arn:aws:sso:::instance/ssoins-1234'',
                              inst_IdentityStoreId = ''d-1234567890'' \<rparr>],
          list_permission_sets = (\<lambda>arn. []),
          describe_permission_set = (\<lambda>arn ps. []) \<rparr>
        \<lparr> list_groups = (\<lambda>store name. if name = ''Admins'' then [''g-1''] else []),
          list_users = (\<lambda>store name. []) \<rparr>
        \<lparr> remote_calls = [], stdout = [], stderr = [] \<rparr>
   = (Inr (),
      \<lparr> remote_calls = [ListInstances, ListGroups ''d-1234567890'' ''nosuch'',
                        ListGroups ''d-1234567890'' ''Admins''],
        stdout = [''nosuch: NOT_FOUND'' @ [CHR 0x0A] @ ''Admins: g-1''], stderr = [] \<rparr>)"
  by code_simp

text \<open>
  The loop over the names in general. Without the flag, a lookup that raises LookupError
  is recorded as \<open>NOT_FOUND\<close> and the loop goes on to the end: it returns one line per
  name. With the flag, the loop stops at the first name whose lookup raises LookupError; it
  prints the lines found so far and the not-found message and exits with status 1 when at
  least one line was found before, and raises ValueError without printing when none was.
\<close>

lemma names_loop_continue:
  assumes "\<And>obj name w. \<exists>obj' w'. (\<exists>found. lookup obj name w = (Inr found, obj', w')) \<or>
                               (\<exists>msg. lookup obj name w = (Inl (LookupError msg), obj', w'))"
  shows "\<exists>lines' obj' w'. names_loop lookup kind False names lines obj w = (Inr lines', obj', w') \<and>
           map fst lines' = map fst lines @ names"
proof (induction names arbitrary: lines obj w)
  case Nil
  show ?case by simp
next
  case (Cons name names)
  from assms [of obj name w] obtain obj1 w1 where
    one: "(\<exists>found. lookup obj name w = (Inr found, obj1, w1)) \<or>
          (\<exists>msg. lookup obj name w = (Inl (LookupError msg), obj1, w1))"
    by blast
  then show ?case
  proof
    assume "\<exists>found. lookup obj name w = (Inr found, obj1, w1)"
    then obtain found where "lookup obj name w = (Inr found, obj1, w1)" ..
    then show ?thesis
      using Cons.IH [of "lines @ [(name, found)]" obj1 w1] by simp
  next
    assume "\<exists>msg. lookup obj name w = (Inl (LookupError msg), obj1, w1)"
    then obtain msg where "lookup obj name w = (Inl (LookupError msg), obj1, w1)" ..
    then show ?thesis
      using Cons.IH [of "lines @ [(name, ''NOT_FOUND'')]" obj1 w1] by simp
  qed
qed

lemma names_loop_stop:
  assumes "lookup obj name w = (Inl (LookupError msg), obj', w')" and "lines \<noteq> []"
  shows "\<exists>text. format_lines lines = Inr text \<and>
           names_loop lookup kind True (name # rest) lines obj w =
             (Inl (SystemExit 1), obj',
              print_stderr (kind @ '' '' @ name @ '' not found'') (print_stdout text w'))"
  using assms by (simp add: format_lines_def Let_def)

lemma names_loop_stop_first:
  assumes "lookup obj name w = (Inl (LookupError msg), obj', w')"
  shows "names_loop lookup kind True (name # rest) [] obj w =
           (Inl (ValueError ''max() arg is an empty sequence''), obj', w')"
  using assms by (simp add: format_lines_def)

subsection \<open>The cache of the permission set lookup\<close>

lemma describe_loop_cache:
  "fst (describe_loop c arn page (cch, w)) k =
     (case filter (\<lambda>a. describe_permission_set c arn a = k) page of
        [] \<Rightarrow> cch k
      | m # ms \<Rightarrow> Some (last (m # ms)))"
proof (induction page arbitrary: cch w)
  case Nil
  show ?case by simp
next
  case (Cons a page)
  show ?case
    by (simp add: Let_def Cons.IH split: list.splits)
qed

lemma describe_loop_hit:
  assumes "fst (describe_loop c arn page (cch, w)) k = Some found" and "cch k = None"
  shows "found \<in> set (filter (\<lambda>a. describe_permission_set c arn a = k) page)"
proof (cases "filter (\<lambda>a. describe_permission_set c arn a = k) page")
  case Nil
  with assms show ?thesis
    by (simp add: describe_loop_cache)
next
  case (Cons m ms)
  with assms(1) have "found = last (m # ms)"
    by (simp add: describe_loop_cache)
  then have "found \<in> set (m # ms)"
    by (simp only: last_in_set list.distinct not_False_eq_True)
  with Cons show ?thesis
    by simp
qed

lemma describe_loop_miss:
  assumes "fst (describe_loop c arn page (cch, w)) k = None"
  shows "filter (\<lambda>a. describe_permission_set c arn a = k) page = [] \<and> cch k = None"
  using assms by (simp add: describe_loop_cache split: list.splits)

lemma paginate_loop_result:
  assumes "cch name = None"
  shows "(case fst (paginate_loop c arn name pages (cch, w)) of
            None \<Rightarrow> filter (\<lambda>a. describe_permission_set c arn a = name) (concat pages) = []
          | Some found \<Rightarrow>
              found \<in> set (filter (\<lambda>a. describe_permission_set c arn a = name) (concat pages)))"
  using assms
proof (induction pages arbitrary: cch w)
  case Nil
  show ?case by simp
next
  case (Cons page pages)
  obtain cch' w' where st: "describe_loop c arn page (cch, call (ListPermissionSets arn) w) = (cch', w')"
    by (cases "describe_loop c arn page (cch, call (ListPermissionSets arn) w)")
  show ?case
  proof (cases "cch' name")
    case None
    then have "fst (describe_loop c arn page (cch, call (ListPermissionSets arn) w)) name = None"
      by (simp add: st)
    then have nil: "filter (\<lambda>a. describe_permission_set c arn a = name) page = []"
      using describe_loop_miss by blast
    from None have eq: "paginate_loop c arn name (page # pages) (cch, w) =
        paginate_loop c arn name pages (cch', w')"
      by (simp add: st)
    from nil have cat: "filter (\<lambda>a. describe_permission_set c arn a = name) (concat (page # pages)) =
        filter (\<lambda>a. describe_permission_set c arn a = name) (concat pages)"
      by simp
    show ?thesis
      unfolding eq cat by (rule Cons.IH [of cch' w', OF None])
  next
    case (Some found)
    then have "fst (describe_loop c arn page (cch, call (ListPermissionSets arn) w)) name = Some found"
      by (simp add: st)
    then have "found \<in> set (filter (\<lambda>a. describe_permission_set c arn a = name) page)"
      using Cons.prems by (rule describe_loop_hit)
    then have mem: "found \<in> set (filter (\<lambda>a. describe_permission_set c arn a = name)
                             (concat (page # pages)))"
      by simp
    from Some have eq: "paginate_loop c arn name (page # pages) (cch, w) = (Some found, cch', w')"
      by (simp add: st)
    from mem show ?thesis
      unfolding eq by simp
  qed
qed

lemma paginate_loop_Some:
  "paginate_loop c arn name pages (cch, w) = (Some found, cch', w') \<Longrightarrow> cch' name = Some found"
proof (induction pages arbitrary: cch w)
  case Nil
  then show ?case by simp
next
  case (Cons page pages)
  obtain cch1 w1 where st: "describe_loop c arn page (cch, call (ListPermissionSets arn) w) = (cch1, w1)"
    by (cases "describe_loop c arn page (cch, call (ListPermissionSets arn) w)")
  show ?case
  proof (cases "cch1 name")
    case None
    with Cons.prems have "paginate_loop c arn name pages (cch1, w1) = (Some found, cch', w')"
      by (simp add: st)
    then show ?thesis by (rule Cons.IH)
  next
    case (Some x)
    with Cons.prems show ?thesis
      by (simp add: st)
  qed
qed

lemma paginate_loop_invariant:
  assumes step: "\<And>page cch w. page \<in> set pages \<Longrightarrow> Q cch \<Longrightarrow> Q (fst (describe_loop c arn page (cch, w)))"
    and "Q cch"
  shows "Q (fst (snd (paginate_loop c arn name pages (cch, w))))"
  using assms
proof (induction pages arbitrary: cch w)
  case Nil
  then show ?case by simp
next
  case (Cons page pages)
  obtain cch1 w1 where st: "describe_loop c arn page (cch, call (ListPermissionSets arn) w) = (cch1, w1)"
    by (cases "describe_loop c arn page (cch, call (ListPermissionSets arn) w)")
  have "Q (fst (describe_loop c arn page (cch, call (ListPermissionSets arn) w)))"
    using Cons.prems(2) by (intro Cons.prems(1)) simp_all
  then have q1: "Q cch1"
    by (simp add: st)
  show ?case
  proof (cases "cch1 name")
    case None
    have "Q (fst (snd (paginate_loop c arn name pages (cch1, w1))))"
      using q1 by (intro Cons.IH Cons.prems(1)) simp_all
    with None show ?thesis
      by (simp add: st)
  next
    case (Some x)
    with q1 show ?thesis
      by (simp add: st)
  qed
qed

lemma lookup_hit:
  "cache self name = Some arn \<Longrightarrow> lookup_permission_set_arn self name w = (Inr arn, self, w)"
  by (simp add: lookup_permission_set_arn_def)

lemma lookup_success_cached:
  assumes "lookup_permission_set_arn self name w = (Inr arn, self1, w1)"
  shows "cache self1 name = Some arn"
proof (cases "cache self name")
  case (Some found)
  with assms show ?thesis
    by (simp add: lookup_permission_set_arn_def)
next
  case None
  obtain r cch w' where pl: "paginate_loop (psl_client self) (psl_instance_arn self) name
      (list_permission_sets (psl_client self) (psl_instance_arn self)) (cache self, w) = (r, cch, w')"
    by (metis prod_cases3)
  show ?thesis
  proof (cases r)
    case None
    with assms \<open>cache self name = None\<close> pl show ?thesis
      by (simp add: lookup_permission_set_arn_def)
  next
    case (Some found)
    with pl have "cch name = Some found"
      using paginate_loop_Some by blast
    with assms \<open>cache self name = None\<close> pl Some show ?thesis
      by (auto simp: lookup_permission_set_arn_def)
  qed
qed

lemma lookup_cache_invariant:
  assumes step: "\<And>page cch w. page \<in> set (list_permission_sets (psl_client self) (psl_instance_arn self))
            \<Longrightarrow> Q cch
            \<Longrightarrow> Q (fst (describe_loop (psl_client self) (psl_instance_arn self) page (cch, w)))"
    and q: "Q (cache self)"
    and run: "lookup_permission_set_arn self name w = (r, self1, w1)"
  shows "Q (cache self1) \<and> psl_client self1 = psl_client self \<and>
         psl_instance_arn self1 = psl_instance_arn self"
proof (cases "cache self name")
  case (Some found)
  with run have "self1 = self"
    by (simp add: lookup_permission_set_arn_def)
  with q show ?thesis by simp
next
  case None
  let ?p = "paginate_loop (psl_client self) (psl_instance_arn self) name
      (list_permission_sets (psl_client self) (psl_instance_arn self)) (cache self, w)"
  have "Q (fst (snd ?p))"
    using step q by (rule paginate_loop_invariant)
  moreover from run None have "self1 = self\<lparr>cache := fst (snd ?p)\<rparr>"
    by (auto simp: lookup_permission_set_arn_def split: prod.splits option.splits)
  ultimately show ?thesis by simp
qed

lemma run_lookups_invariant:
  assumes step: "\<And>page cch w. page \<in> set (list_permission_sets (psl_client self) (psl_instance_arn self))
            \<Longrightarrow> Q cch
            \<Longrightarrow> Q (fst (describe_loop (psl_client self) (psl_instance_arn self) page (cch, w)))"
    and q: "Q (cache self)"
    and run: "run_lookups self names w = (self2, w2)"
  shows "Q (cache self2)"
  using assms
proof (induction names arbitrary: self w)
  case Nil
  then show ?case by simp
next
  case (Cons n names)
  obtain r self1 w1 where one: "lookup_permission_set_arn self n w = (r, self1, w1)"
    by (metis prod_cases3)
  have inv: "Q (cache self1) \<and> psl_client self1 = psl_client self \<and>
         psl_instance_arn self1 = psl_instance_arn self"
    using Cons.prems(1,2) one by (rule lookup_cache_invariant)
  from Cons.prems(3) one have rest: "run_lookups self1 names w1 = (self2, w2)"
    by simp
  show ?case
  proof (rule Cons.IH [OF _ _ rest])
    show "Q (cache self1)" using inv by simp
  next
    fix page cch w
    assume "page \<in> set (list_permission_sets (psl_client self1) (psl_instance_arn self1))"
      and "Q cch"
    then show "Q (fst (describe_loop (psl_client self1) (psl_instance_arn self1) page (cch, w)))"
      using inv Cons.prems(1) by simp
  qed
qed

lemma run_lookups_hits:
  "\<forall>n\<in>set names. cache self n \<noteq> None \<Longrightarrow> run_lookups self names w = (self, w)"
proof (induction names)
  case Nil
  show ?case by simp
next
  case (Cons n names)
  then obtain found where "cache self n = Some found"
    by auto
  then have "lookup_permission_set_arn self n w = (Inr found, self, w)"
    by (rule lookup_hit)
  with Cons show ?case by simp
qed

lemma describe_loop_keeps_key:
  "cch k \<noteq> None \<Longrightarrow> fst (describe_loop c arn page (cch, w)) k \<noteq> None"
  by (simp add: describe_loop_cache split: list.splits)

lemma describe_loop_keeps_value:
  assumes "\<forall>a\<in>set page. describe_permission_set c arn a = k \<longrightarrow> a = found"
    and "cch k = Some found"
  shows "fst (describe_loop c arn page (cch, w)) k = Some found"
proof (cases "filter (\<lambda>a. describe_permission_set c arn a = k) page")
  case Nil
  with assms(2) show ?thesis
    by (simp add: describe_loop_cache)
next
  case (Cons m ms)
  have "last (m # ms) \<in> set (m # ms)"
    by (simp only: last_in_set list.distinct not_False_eq_True)
  then have "last (m # ms) \<in> set (filter (\<lambda>a. describe_permission_set c arn a = k) page)"
    by (simp only: Cons)
  then have "last (m # ms) = found"
    using assms(1) by simp
  with Cons show ?thesis
    by (simp add: describe_loop_cache)
qed

text \<open>
  Claim C5, as amended. Once \<open>lookup_permission_set_arn\<close> has resolved a name, every
  later call with that name, after any calls for any names in between, is answered from
  the cache: it returns an ARN and leaves the object and the world as they are, so no page
  is fetched and no permission set is described. The ARN is the one resolved first when all
  calls in between were answered from the cache, or when every listed permission set that
  carries the name is the one resolved first.
\<close>

theorem lookup_permission_set_arn_cached:
  assumes first: "lookup_permission_set_arn self name w = (Inr arn, self1, w1)"
    and between: "run_lookups self1 names w1 = (self2, w2)"
  shows "\<exists>arn'. lookup_permission_set_arn self2 name w2 = (Inr arn', self2, w2) \<and>
           ((\<forall>n\<in>set names. cache self1 n \<noteq> None) \<longrightarrow> arn' = arn) \<and>
           ((\<forall>a\<in>set (concat (list_permission_sets (psl_client self) (psl_instance_arn self))).
               describe_permission_set (psl_client self) (psl_instance_arn self) a = name
               \<longrightarrow> a = arn) \<longrightarrow> arn' = arn)"
proof -
  have c1: "cache self1 name = Some arn"
    using first by (rule lookup_success_cached)
  have same: "psl_client self1 = psl_client self \<and> psl_instance_arn self1 = psl_instance_arn self"
    using lookup_cache_invariant [where Q = "\<lambda>cch. True", OF _ _ first] by simp
  have "cache self2 name \<noteq> None"
  proof (rule run_lookups_invariant [where Q = "\<lambda>cch. cch name \<noteq> None", OF _ _ between])
    show "cache self1 name \<noteq> None" using c1 by simp
  qed (rule describe_loop_keeps_key)
  then obtain arn' where c2: "cache self2 name = Some arn'"
    by auto
  then have hit: "lookup_permission_set_arn self2 name w2 = (Inr arn', self2, w2)"
    by (rule lookup_hit)
  have a: "arn' = arn" if "\<forall>n\<in>set names. cache self1 n \<noteq> None"
  proof -
    from that have "run_lookups self1 names w1 = (self1, w1)"
      by (rule run_lookups_hits)
    with between have "self2 = self1"
      by simp
    with c1 c2 show ?thesis by simp
  qed
  have b: "arn' = arn"
    if u: "\<forall>a\<in>set (concat (list_permission_sets (psl_client self) (psl_instance_arn self))).
               describe_permission_set (psl_client self) (psl_instance_arn self) a = name
               \<longrightarrow> a = arn"
  proof -
    have "cache self2 name = Some arn"
    proof (rule run_lookups_invariant [where Q = "\<lambda>cch. cch name = Some arn", OF _ c1 between])
      fix page cch w
      assume "page \<in> set (list_permission_sets (psl_client self1) (psl_instance_arn self1))"
        and "cch name = Some arn"
      then show "fst (describe_loop (psl_client self1) (psl_instance_arn self1) page (cch, w)) name
                   = Some arn"
        using u same by (intro describe_loop_keeps_value) auto
    qed
    with c2 show ?thesis by simp
  qed
  from hit a b show ?thesis
    by blast
qed

theorem lookup_permission_set_arn_cached_witness:
  "(let self0 = \<lparr> psl_client =
         \<lparr> list_instances = [],
           list_permission_sets = (\<lambda>arn. [[''arn:aws:sso:::permissionSet/ssoins-1234/ps-1''],
                                        [''arn:aws:sso:::permissionSet/ssoins-1234/ps-2'']]),
           describe_permission_set =
             (\<lambda>arn ps. if ps = ''arn:aws:sso:::permissionSet/ssoins-1234/ps-1'' then ''Admin''
                        else ''ReadOnly'') \<rparr>,
       psl_instance_arn = ''arn:aws:sso:::instance/ssoins-1234'',
       cache = Map.empty \<rparr>;
        w0 = \<lparr> remote_calls = [], stdout = [], stderr = [] \<rparr>;
        r1 = lookup_permission_set_arn self0 ''Admin'' w0;
        s2 = run_lookups (fst (snd r1)) [''ReadOnly'', ''Missing''] (snd (snd r1))
    in fst r1 = Inr ''arn:aws:sso:::permissionSet/ssoins-1234/ps-1'' \<and>
       lookup_permission_set_arn (fst s2) ''Admin'' (snd s2) =
         (Inr ''arn:aws:sso:::permissionSet/ssoins-1234/ps-1'', fst s2, snd s2))"
proof -
  let ?self0 = "\<lparr> psl_client =
         \<lparr> list_instances = [],
           list_permission_sets = (\<lambda>arn. [[''arn:aws:sso:::permissionSet/ssoins-1234/ps-1''],
                                        [''arn:aws:sso:::permissionSet/ssoins-1234/ps-2'']]),
           describe_permission_set =
             (\<lambda>arn ps. if ps = ''arn:aws:sso:::permissionSet/ssoins-1234/ps-1'' then ''Admin''
                        else ''ReadOnly'') \<rparr>,
       psl_instance_arn = ''arn:aws:sso:::instance/ssoins-1234'',
       cache = Map.empty \<rparr>"
  let ?w0 = "\<lparr> remote_calls = [], stdout = [], stderr = [] \<rparr>"
  let ?r1 = "lookup_permission_set_arn ?self0 ''Admin'' ?w0"
  let ?s2 = "run_lookups (fst (snd ?r1)) [''ReadOnly'', ''Missing''] (snd (snd ?r1))"
  have res: "fst ?r1 = Inr ''arn:aws:sso:::permissionSet/ssoins-1234/ps-1''"
    by code_simp
  then have first: "?r1 = (Inr ''arn:aws:sso:::permissionSet/ssoins-1234/ps-1'', fst (snd ?r1), snd (snd ?r1))"
    by (metis prod.collapse)
  have between: "?s2 = (fst ?s2, snd ?s2)"
    by simp
  have unique: "\<forall>a\<in>set (concat (list_permission_sets (psl_client ?self0) (psl_instance_arn ?self0))).
      describe_permission_set (psl_client ?self0) (psl_instance_arn ?self0) a = ''Admin''
      \<longrightarrow> a = ''arn:aws:sso:::permissionSet/ssoins-1234/ps-1''"
    by simp
  from lookup_permission_set_arn_cached [OF first between] unique
  have "lookup_permission_set_arn (fst ?s2) ''Admin'' (snd ?s2) =
         (Inr ''arn:aws:sso:::permissionSet/ssoins-1234/ps-1'', fst ?s2, snd ?s2)"
    by blast
  with res show ?thesis
    by (simp only: Let_def)
qed

text \<open>
  Two permission sets named \<open>Admin\<close>, on the first and on the second page. The first
  call resolves \<open>Admin\<close> to the one of the first page; a call for an unknown name walks
  all pages again and overwrites the entry; the next call for \<open>Admin\<close> returns the other
  ARN.
\<close>

theorem lookup_permission_set_arn_cached_counterexample:
  "(let self0 = \<lparr> psl_client =
         \<lparr> list_instances = [],
           list_permission_sets = (\<lambda>arn. [[''arn:aws:sso:::permissionSet/ssoins-1234/ps-1''],
                                        [''arn:aws:sso:::permissionSet/ssoins-1234/ps-2'']]),
           describe_permission_set =
             (\<lambda>arn ps. if ps = ''arn:aws:sso:::permissionSet/ssoins-1234/ps-1'' then ''Admin''
                        else ''Admin'') \<rparr>,
       psl_instance_arn = ''arn:aws:sso:::instance/ssoins-1234'',
       cache = Map.empty \<rparr>;
        w0 = \<lparr> remote_calls = [], stdout = [], stderr = [] \<rparr>;
        r1 = lookup_permission_set_arn self0 ''Admin'' w0;
        s2 = run_lookups (fst (snd r1)) [''Other''] (snd (snd r1))
    in fst r1 = Inr ''arn:aws:sso:::permissionSet/ssoins-1234/ps-1'' \<and>
       fst (lookup_permission_set_arn (fst s2) ''Admin'' (snd s2)) =
         Inr ''arn:aws:sso:::permissionSet/ssoins-1234/ps-2'')"
  by code_simp

subsection \<open>Lookups by name\<close>

lemma length_one: "\<not> Suc 0 < length xs \<longrightarrow> xs \<noteq> [] \<longrightarrow> length xs = Suc 0"
  by (cases xs) auto

lemma lookup_group_by_name_result:
  assumes "fst (identity_store_id ids w) = Inr store_id"
  shows "(length (list_groups isc store_id name) = 1 \<longrightarrow>
            fst (lookup_group_by_name isc ids name w) = Inr (list_groups isc store_id name ! 0)) \<and>
         (length (list_groups isc store_id name) \<noteq> 1 \<longrightarrow>
            (\<exists>msg. fst (lookup_group_by_name isc ids name w) = Inl (LookupError msg)))"
proof -
  obtain r ids' w' where r: "identity_store_id ids w = (r, ids', w')"
    by (rule prod_cases3)
  with assms have "identity_store_id ids w = (Inr store_id, ids', w')"
    by simp
  then show ?thesis
    using length_one [of "list_groups isc store_id name"]
    by (simp add: lookup_group_by_name_def Let_def)
qed

lemma lookup_user_by_name_result:
  assumes "fst (identity_store_id ids w) = Inr store_id"
  shows "(length (list_users isc store_id name) = 1 \<longrightarrow>
            fst (lookup_user_by_name isc ids name w) = Inr (list_users isc store_id name ! 0)) \<and>
         (length (list_users isc store_id name) \<noteq> 1 \<longrightarrow>
            (\<exists>msg. fst (lookup_user_by_name isc ids name w) = Inl (LookupError msg)))"
proof -
  obtain r ids' w' where r: "identity_store_id ids w = (r, ids', w')"
    by (rule prod_cases3)
  with assms have "identity_store_id ids w = (Inr store_id, ids', w')"
    by simp
  then show ?thesis
    using length_one [of "list_users isc store_id name"]
    by (simp add: lookup_user_by_name_def Let_def)
qed

lemma instance_arn_discovery:
  assumes "\<not> truthy (priv_instance_arn ids)"
  shows "(length (list_instances (priv_client ids)) = 1 \<and>
          \<not> (truthy (priv_identity_store_id ids) \<and>
             priv_identity_store_id ids \<noteq>
               Some (inst_IdentityStoreId (list_instances (priv_client ids) ! 0))) \<longrightarrow>
            fst (instance_arn ids w) = Inr (inst_InstanceArn (list_instances (priv_client ids) ! 0))) \<and>
         (length (list_instances (priv_client ids)) \<noteq> 1 \<or>
          (truthy (priv_identity_store_id ids) \<and>
             priv_identity_store_id ids \<noteq>
               Some (inst_IdentityStoreId (list_instances (priv_client ids) ! 0))) \<longrightarrow>
            (\<exists>msg. fst (instance_arn ids w) = Inl (LookupError msg)))"
  using assms length_one [of "list_instances (priv_client ids)"]
  by (simp add: instance_arn_def Let_def)

lemma lookup_permission_set_arn_result:
  assumes "cache self name = None"
  shows "(filter (\<lambda>a. describe_permission_set (psl_client self) (psl_instance_arn self) a = name)
            (concat (list_permission_sets (psl_client self) (psl_instance_arn self))) = [] \<longrightarrow>
            (\<exists>msg. fst (lookup_permission_set_arn self name w) = Inl (LookupError msg))) \<and>
         (filter (\<lambda>a. describe_permission_set (psl_client self) (psl_instance_arn self) a = name)
            (concat (list_permission_sets (psl_client self) (psl_instance_arn self))) \<noteq> [] \<longrightarrow>
            (\<exists>found\<in>set (filter (\<lambda>a. describe_permission_set (psl_client self)
                                         (psl_instance_arn self) a = name)
                (concat (list_permission_sets (psl_client self) (psl_instance_arn self)))).
               fst (lookup_permission_set_arn self name w) = Inr found))"
proof -
  define matches where "matches =
    filter (\<lambda>a. describe_permission_set (psl_client self) (psl_instance_arn self) a = name)
      (concat (list_permission_sets (psl_client self) (psl_instance_arn self)))"
  define p where "p = paginate_loop (psl_client self) (psl_instance_arn self) name
      (list_permission_sets (psl_client self) (psl_instance_arn self)) (cache self, w)"
  have pl: "(case fst p of None \<Rightarrow> matches = [] | Some found \<Rightarrow> found \<in> set matches)"
    unfolding p_def matches_def using assms by (rule paginate_loop_result)
  have run: "fst (lookup_permission_set_arn self name w) =
      (case fst p of
         None \<Rightarrow> Inl (LookupError (''No permission set named '' @ name @ '' found''))
       | Some found \<Rightarrow> Inr found)"
    using assms by (simp add: lookup_permission_set_arn_def p_def split: prod.splits option.splits)
  have "(matches = [] \<longrightarrow>
           (\<exists>msg. fst (lookup_permission_set_arn self name w) = Inl (LookupError msg))) \<and>
        (matches \<noteq> [] \<longrightarrow>
           (\<exists>found\<in>set matches. fst (lookup_permission_set_arn self name w) = Inr found))"
  proof (cases "fst p")
    case None
    with pl have "matches = []"
      by simp
    with None run show ?thesis
      by simp
  next
    case (Some found)
    with pl have mem: "found \<in> set matches"
      by simp
    then have "matches \<noteq> []"
      by auto
    with Some run mem show ?thesis
      by auto
  qed
  then show ?thesis
    by (simp only: matches_def)
qed

text \<open>
  Claim C1, as amended. Once the identity store id is resolved, the lookup of a group and
  the lookup of a user raise LookupError exactly when the service reports no match or more
  than one, and return the identifier of the single match otherwise. The discovery of the
  SSO instance (no ARN given) returns the ARN of the single instance, and raises
  LookupError exactly when the service reports no instance, more than one, or one whose
  identity store differs from a given identity store id. The lookup of a permission set
  that is not cached raises LookupError exactly when no listed permission set carries the
  name, and returns the ARN of a listed permission set with that name otherwise: several
  matches are not detected.
\<close>

theorem lookups_raise_or_return:
  assumes "fst (identity_store_id ids w) = Inr store_id"
    and "\<not> truthy (priv_instance_arn ids0)"
    and "cache self pname = None"
  shows "((length (list_groups isc store_id gname) = 1 \<longrightarrow>
            fst (lookup_group_by_name isc ids gname w) = Inr (list_groups isc store_id gname ! 0)) \<and>
          (length (list_groups isc store_id gname) \<noteq> 1 \<longrightarrow>
            (\<exists>msg. fst (lookup_group_by_name isc ids gname w) = Inl (LookupError msg)))) \<and>
         ((length (list_users isc store_id uname) = 1 \<longrightarrow>
            fst (lookup_user_by_name isc ids uname w) = Inr (list_users isc store_id uname ! 0)) \<and>
          (length (list_users isc store_id uname) \<noteq> 1 \<longrightarrow>
            (\<exists>msg. fst (lookup_user_by_name isc ids uname w) = Inl (LookupError msg)))) \<and>
         ((length (list_instances (priv_client ids0)) = 1 \<and>
           \<not> (truthy (priv_identity_store_id ids0) \<and>
              priv_identity_store_id ids0 \<noteq>
                Some (inst_IdentityStoreId (list_instances (priv_client ids0) ! 0))) \<longrightarrow>
            fst (instance_arn ids0 w0) =
              Inr (inst_InstanceArn (list_instances (priv_client ids0) ! 0))) \<and>
          (length (list_instances (priv_client ids0)) \<noteq> 1 \<or>
           (truthy (priv_identity_store_id ids0) \<and>
              priv_identity_store_id ids0 \<noteq>
                Some (inst_IdentityStoreId (list_instances (priv_client ids0) ! 0))) \<longrightarrow>
            (\<exists>msg. fst (instance_arn ids0 w0) = Inl (LookupError msg)))) \<and>
         ((filter (\<lambda>a. describe_permission_set (psl_client self) (psl_instance_arn self) a = pname)
            (concat (list_permission_sets (psl_client self) (psl_instance_arn self))) = [] \<longrightarrow>
            (\<exists>msg. fst (lookup_permission_set_arn self pname w1) = Inl (LookupError msg))) \<and>
          (filter (\<lambda>a. describe_permission_set (psl_client self) (psl_instance_arn self) a = pname)
            (concat (list_permission_sets (psl_client self) (psl_instance_arn self))) \<noteq> [] \<longrightarrow>
            (\<exists>found\<in>set (filter (\<lambda>a. describe_permission_set (psl_client self)
                                         (psl_instance_arn self) a = pname)
                (concat (list_permission_sets (psl_client self) (psl_instance_arn self)))).
               fst (lookup_permission_set_arn self pname w1) = Inr found)))"
proof -
  note g = lookup_group_by_name_result [OF assms(1), of isc gname]
  note u = lookup_user_by_name_result [OF assms(1), of isc uname]
  note i = instance_arn_discovery [OF assms(2), of w0]
  note p = lookup_permission_set_arn_result [OF assms(3), of w1]
  show ?thesis
    by (rule conjI [OF g conjI [OF u conjI [OF i p]]])
qed

theorem lookups_raise_or_return_witness:
  "(let sso = \<lparr> list_instances = [\<lparr> inst_InstanceArn = ''arn:aws:sso:::instance/ssoins-1234'',
                                  inst_IdentityStoreId = ''d-1234567890'' \<rparr>],
           list_permission_sets = (\<lambda>arn. [[''arn:aws:sso:::permissionSet/ssoins-1234/ps-1''],
                                        [''arn:aws:sso:::permissionSet/ssoins-1234/ps-2'']]),
           describe_permission_set =
             (\<lambda>arn ps. if ps = ''arn:aws:sso:::permissionSet/ssoins-1234/ps-1'' then ''Admin''
                        else ''ReadOnly'') \<rparr>;
        isc = \<lparr> list_groups = (\<lambda>store name. if name = ''Admins'' then [''g-1''] else []),
           list_users = (\<lambda>store name. if name = ''alice'' then [''u-1'', ''u-2''] else []) \<rparr>;
        ids = Ids_init sso
          \<lparr> arg_type = Groups, arg_value = [''Admins''], arg_instance_arn = None,
           arg_identity_store_id = None, error_if_not_found = False, show_id = False \<rparr>;
        lookup = \<lparr> psl_client = sso, psl_instance_arn = ''arn:aws:sso:::instance/ssoins-1234'',
                   cache = Map.empty \<rparr>;
        w = \<lparr> remote_calls = [], stdout = [], stderr = [] \<rparr>
    in fst (identity_store_id ids w) = Inr ''d-1234567890'' \<and>
       \<not> truthy (priv_instance_arn ids) \<and>
       cache lookup ''Admin'' = None \<and>
       fst (lookup_group_by_name isc ids ''Admins'' w) = Inr ''g-1'' \<and>
       (\<exists>msg. fst (lookup_user_by_name isc ids ''alice'' w) = Inl (LookupError msg)) \<and>
       fst (instance_arn ids w) = Inr ''arn:aws:sso:::instance/ssoins-1234'' \<and>
       fst (lookup_permission_set_arn lookup ''Admin'' w) =
         Inr ''arn:aws:sso:::permissionSet/ssoins-1234/ps-1'')"
proof -
  let ?sso = "\<lparr> list_instances = [\<lparr> inst_InstanceArn = ''arn:aws:sso:::instance/ssoins-1234'',
                                  inst_IdentityStoreId = ''d-1234567890'' \<rparr>],
           list_permission_sets = (\<lambda>arn. [[''arn:aws:sso:::permissionSet/ssoins-1234/ps-1''],
                                        [''arn:aws:sso:::permissionSet/ssoins-1234/ps-2'']]),
           describe_permission_set =
             (\<lambda>arn ps. if ps = ''arn:aws:sso:::permissionSet/ssoins-1234/ps-1'' then ''Admin''
                        else ''ReadOnly'') \<rparr>"
  let ?isc = "\<lparr> list_groups = (\<lambda>store name. if name = ''Admins'' then [''g-1''] else []),
           list_users = (\<lambda>store name. if name = ''alice'' then [''u-1'', ''u-2''] else []) \<rparr>"
  let ?ids = "Ids_init ?sso
          \<lparr> arg_type = Groups, arg_value = [''Admins''], arg_instance_arn = None,
           arg_identity_store_id = None, error_if_not_found = False, show_id = False \<rparr>"
  let ?lookup = "\<lparr> psl_client = ?sso, psl_instance_arn = ''arn:aws:sso:::instance/ssoins-1234'',
                   cache = Map.empty \<rparr>"
  let ?w = "\<lparr> remote_calls = [], stdout = [], stderr = [] \<rparr>"
  have h1: "fst (identity_store_id ?ids ?w) = Inr ''d-1234567890''"
    by code_simp
  have h2: "\<not> truthy (priv_instance_arn ?ids)"
    by (simp add: Ids_init_def)
  have h3: "cache ?lookup ''Admin'' = None"
    by simp
  note t = lookups_raise_or_return [OF h1 h2 h3, of ?isc "''Admins''" "''alice''" ?w ?w]
  from t have g: "fst (lookup_group_by_name ?isc ?ids ''Admins'' ?w) = Inr ''g-1''"
    by simp
  from t have u: "\<exists>msg. fst (lookup_user_by_name ?isc ?ids ''alice'' ?w) = Inl (LookupError msg)"
    by simp
  from t have i: "fst (instance_arn ?ids ?w) = Inr ''arn:aws:sso:::instance/ssoins-1234''"
    by (simp add: Ids_init_def)
  from t have p: "fst (lookup_permission_set_arn ?lookup ''Admin'' ?w) =
         Inr ''arn:aws:sso:::permissionSet/ssoins-1234/ps-1''"
    by simp
  from h1 h2 h3 g u i p show ?thesis
    by (simp only: Let_def simp_thms)
qed

text \<open>
  Two permission sets named \<open>Admin\<close> on one page: the service reports more than one
  match, and the lookup returns the ARN described last instead of raising.
\<close>

theorem lookups_raise_or_return_counterexample:
  "(let self0 = \<lparr> psl_client =
         \<lparr> list_instances = [\<lparr> inst_InstanceArn = ''arn:aws:sso:::instance/ssoins-1234'',
                                  inst_IdentityStoreId = ''d-1234567890'' \<rparr>],
           list_permission_sets = (\<lambda>arn. [[''arn:aws:sso:::permissionSet/ssoins-1234/ps-1'',
                                         ''arn:aws:sso:::permissionSet/ssoins-1234/ps-2'']]),
           describe_permission_set = (\<lambda>arn ps. ''Admin'') \<rparr>,
         psl_instance_arn = ''arn:aws:sso:::instance/ssoins-1234'',
         cache = Map.empty \<rparr>;
        w0 = \<lparr> remote_calls = [], stdout = [], stderr = [] \<rparr>
    in filter (\<lambda>a. describe_permission_set (psl_client self0) (psl_instance_arn self0) a = ''Admin'')
         (concat (list_permission_sets (psl_client self0) (psl_instance_arn self0)))
         = [''arn:aws:sso:::permissionSet/ssoins-1234/ps-1'',
            ''arn:aws:sso:::permissionSet/ssoins-1234/ps-2''] \<and>
       fst (lookup_permission_set_arn self0 ''Admin'' w0) =
         Inr ''arn:aws:sso:::permissionSet/ssoins-1234/ps-2'')"
  by code_simp

end
